theory Spec2Isabelle
  imports Main "HOL-Library.AList"
begin

section \<open>Phone CRM front-end (src/src/App.jsx): data model\<close>

text \<open>
  JavaScript values that occur in rows and statistics. Numbers that come out of JSON
  are modelled as integers; \<open>Undefined\<close> is what reading an absent property gives.
\<close>

datatype jsval = Undefined | Null | JBool bool | JNum int | JStr string

text \<open>
  A row (\<open>Item\<close>) and the statistics snapshot are plain JSON objects: association lists from
  property names to values, in property order.
\<close>

type_synonym item = "(string \<times> jsval) list"
type_synonym stats_obj = "(string \<times> jsval) list"

definition get_prop :: "item \<Rightarrow> string \<Rightarrow> jsval" where
  \<comment> \<open>item.k\<close>
  "get_prop it k = (case map_of it k of None \<Rightarrow> Undefined | Some v \<Rightarrow> v)"

definition item_id :: "item \<Rightarrow> jsval" where
  \<comment> \<open>item.id\<close>
  "item_id it = get_prop it ''id''"

definition spread_with :: "item \<Rightarrow> string \<Rightarrow> jsval \<Rightarrow> item" where
  \<comment> \<open>{ ...item, [field]: value }: an existing property keeps its place, a new one is appended\<close>
  "spread_with it field v = AList.update field v it"

text \<open>The component's state variables (the \<^verbatim>\<open>useState\<close> calls of \<^verbatim>\<open>App\<close>, lines 28-40).
  A value of this record is also what one render's closures see: every handler and effect
  created by a render reads the state variables of that render.\<close>

record app_state =
  isLoggedIn :: bool
  username :: string
  password :: string
  loginError :: string
  activeTab :: string
  items :: "item list"
  stats :: stats_obj
  search :: string
  loading :: bool
  page :: nat
  hasMore :: bool

text \<open>The two keys of \<^verbatim>\<open>localStorage\<close> the program uses.\<close>

record local_storage =
  ls_token :: "string option"
  ls_isLoggedIn :: "string option"

text \<open>Requests to the backend (the \<^verbatim>\<open>axios\<close> calls), and everything else the page does that
  is visible from outside: dialogs, console output, page reload.\<close>

datatype request =
    PostLogin string string
  | GetItems string nat nat string
  | GetStats string
  | PostItem string
  | PutItem jsval string jsval
  | DeleteItem jsval
  | PostReturn jsval

datatype action =
    Http "string option" request
  | PromptCount
  | AlertInvalidCount
  | ConfirmSlowAdd int
  | AlertAddFailed
  | ConfirmDelete
  | ConfirmReturn
  | ConsoleError
  | Reload

text \<open>
  An \<^verbatim>\<open>await\<close> splits an async function in two: the part that runs when it is called and the
  part that runs when the request settles. A pending entry records which continuation waits,
  with the variables of the calling closure the continuation still reads: \<^verbatim>\<open>reset\<close> for
  \<^verbatim>\<open>fetchItems\<close>; the field for \<^verbatim>\<open>updateItem\<close>; the id for \<^verbatim>\<open>deleteItem\<close> and \<^verbatim>\<open>returnItem\<close>;
  the number of requests for \<^verbatim>\<open>addItems\<close>; and the closure's \<^verbatim>\<open>activeTab\<close> wherever the
  continuation calls \<^verbatim>\<open>fetchStats\<close>.
\<close>

datatype pending =
    PLogin
  | PItems bool
  | PStats
  | PAdd nat string
  | PPut string string
  | PDelete jsval string
  | PReturn jsval string

text \<open>
  The page: component state, persistent storage, a millisecond clock, the pending debounce
  timer (its due time and the render whose closure it will run), the requests in flight, the
  log of actions so far, and whether \<^verbatim>\<open>window.location.reload()\<close> has been called.
\<close>

record world =
  st :: app_state
  localStorage :: local_storage
  now :: nat
  timer :: "(nat \<times> app_state) option"
  inflight :: "pending list"
  trace :: "action list"
  reloaded :: bool

text \<open>What the network gives back for one request, and what \<^verbatim>\<open>axios\<close> makes of it: with the
  default \<^verbatim>\<open>validateStatus\<close> (the program configures none) a status from 200 to 299 fulfils the
  promise, any other status rejects it with \<^verbatim>\<open>error.response\<close> set, and a request without a
  reply rejects it with no \<^verbatim>\<open>error.response\<close>.\<close>

datatype 'a reply = Reply nat 'a | NoReply

datatype 'a outcome = Fulfilled 'a | Rejected "nat option"

definition axios_settle :: "'a reply \<Rightarrow> 'a outcome" where
  "axios_settle rep =
     (case rep of
        NoReply \<Rightarrow> Rejected None
      | Reply status d \<Rightarrow>
          if 200 \<le> status \<and> status < 300 then Fulfilled d else Rejected (Some status))"

section \<open>State setters and primitive effects\<close>

definition setIsLoggedIn :: "bool \<Rightarrow> world \<Rightarrow> world" where
  "setIsLoggedIn b w = w\<lparr>st := (st w)\<lparr>isLoggedIn := b\<rparr>\<rparr>"

definition setUsername :: "string \<Rightarrow> world \<Rightarrow> world" where
  "setUsername v w = w\<lparr>st := (st w)\<lparr>username := v\<rparr>\<rparr>"

definition setPassword :: "string \<Rightarrow> world \<Rightarrow> world" where
  "setPassword v w = w\<lparr>st := (st w)\<lparr>password := v\<rparr>\<rparr>"

definition setLoginError :: "string \<Rightarrow> world \<Rightarrow> world" where
  "setLoginError v w = w\<lparr>st := (st w)\<lparr>loginError := v\<rparr>\<rparr>"

definition setActiveTab :: "string \<Rightarrow> world \<Rightarrow> world" where
  "setActiveTab v w = w\<lparr>st := (st w)\<lparr>activeTab := v\<rparr>\<rparr>"

definition setItems :: "(item list \<Rightarrow> item list) \<Rightarrow> world \<Rightarrow> world" where
  \<comment> \<open>the updater form setItems(prev => ...); setItems(v) is \<open>setItems (\<lambda>_. v)\<close>\<close>
  "setItems f w = w\<lparr>st := (st w)\<lparr>items := f (items (st w))\<rparr>\<rparr>"

definition setStats :: "stats_obj \<Rightarrow> world \<Rightarrow> world" where
  "setStats v w = w\<lparr>st := (st w)\<lparr>stats := v\<rparr>\<rparr>"

definition setSearch :: "string \<Rightarrow> world \<Rightarrow> world" where
  "setSearch v w = w\<lparr>st := (st w)\<lparr>search := v\<rparr>\<rparr>"

definition setLoading :: "bool \<Rightarrow> world \<Rightarrow> world" where
  "setLoading b w = w\<lparr>st := (st w)\<lparr>loading := b\<rparr>\<rparr>"

definition setPage :: "(nat \<Rightarrow> nat) \<Rightarrow> world \<Rightarrow> world" where
  "setPage f w = w\<lparr>st := (st w)\<lparr>page := f (page (st w))\<rparr>\<rparr>"

definition setHasMore :: "bool \<Rightarrow> world \<Rightarrow> world" where
  "setHasMore b w = w\<lparr>st := (st w)\<lparr>hasMore := b\<rparr>\<rparr>"

definition emit :: "action \<Rightarrow> world \<Rightarrow> world" where
  "emit a w = w\<lparr>trace := trace w @ [a]\<rparr>"

definition truthy :: "string option \<Rightarrow> bool" where
  \<comment> \<open>truthiness of what localStorage.getItem returns: null and the empty string are falsy\<close>
  "truthy v = (case v of None \<Rightarrow> False | Some s \<Rightarrow> s \<noteq> [])"

definition request_interceptor :: "local_storage \<Rightarrow> string option" where
  \<comment> \<open>lines 8-14: the Authorization header put on an outgoing request, if any\<close>
  "request_interceptor ls =
     (case ls_token ls of
        None \<Rightarrow> None
      | Some token \<Rightarrow> if truthy (Some token) then Some (''Bearer '' @ token) else None)"

definition axios_send :: "request \<Rightarrow> pending \<Rightarrow> world \<Rightarrow> world" where
  "axios_send req p w =
     w\<lparr>trace := trace w @ [Http (request_interceptor (localStorage w)) req],
       inflight := inflight w @ [p]\<rparr>"

definition clear_credentials :: "world \<Rightarrow> world" where
  \<comment> \<open>localStorage.removeItem('token'); localStorage.removeItem('isLoggedIn')\<close>
  "clear_credentials w =
     w\<lparr>localStorage := (localStorage w)\<lparr>ls_token := None, ls_isLoggedIn := None\<rparr>\<rparr>"

definition reload :: "world \<Rightarrow> world" where
  \<comment> \<open>window.location.reload()\<close>
  "reload w = w\<lparr>trace := trace w @ [Reload], reloaded := True\<rparr>"

definition response_interceptor :: "'a outcome \<Rightarrow> world \<Rightarrow> world" where
  \<comment> \<open>lines 17-24; the outcome itself is passed on unchanged\<close>
  "response_interceptor out w =
     (case out of
        Fulfilled _ \<Rightarrow> w
      | Rejected resp \<Rightarrow>
          if resp = Some 401 \<or> resp = Some 403 then reload (clear_credentials w) else w)"

section \<open>Fetch orchestrator\<close>

text \<open>
  Every function below that the source declares inside \<^verbatim>\<open>App\<close> takes as first argument \<open>r\<close> the
  state variables of the render that created the closure being run; the \<^verbatim>\<open>world\<close> it
  transforms holds the current state, which the setters change. The two differ whenever a
  closure runs after a later render: a timer callback, or the code after an \<^verbatim>\<open>await\<close>.
\<close>

definition fetchItems :: "app_state \<Rightarrow> nat \<Rightarrow> bool \<Rightarrow> world \<Rightarrow> world" where
  \<comment> \<open>lines 114-122, up to the await\<close>
  "fetchItems r pageNum reset w =
     (if loading r then w
      else let limit = 500; offset = pageNum * limit
           in axios_send (GetItems (activeTab r) limit offset (search r)) (PItems reset)
                (setLoading True w))"

definition fetchItems_settle :: "bool \<Rightarrow> item list outcome \<Rightarrow> world \<Rightarrow> world" where
  \<comment> \<open>lines 124-131, after the await: the rest of try, or catch; then finally\<close>
  "fetchItems_settle reset out w =
     (let limit = 500;
          w1 = (case out of
                  Fulfilled data \<Rightarrow>
                    setItems (\<lambda>prev. if reset then data else prev @ data)
                      (if length data < limit then setHasMore False w else w)
                | Rejected err \<Rightarrow> emit ConsoleError w)
      in setLoading False w1)"

definition fetchStats :: "string \<Rightarrow> world \<Rightarrow> world" where
  \<comment> \<open>lines 134-136, up to the await; the argument is the closure's activeTab\<close>
  "fetchStats tab w = axios_send (GetStats tab) PStats w"

definition fetchStats_settle :: "stats_obj outcome \<Rightarrow> world \<Rightarrow> world" where
  \<comment> \<open>lines 137-138\<close>
  "fetchStats_settle out w =
     (case out of Fulfilled data \<Rightarrow> setStats data w | Rejected err \<Rightarrow> emit ConsoleError w)"

text \<open>The effects (lines 45-90), each run with the closure of the render that scheduled it.\<close>

definition tab_effect :: "app_state \<Rightarrow> world \<Rightarrow> world" where
  \<comment> \<open>lines 45-54, dependencies [activeTab, isLoggedIn]\<close>
  "tab_effect r w =
     (if \<not> isLoggedIn r then w
      else fetchStats (activeTab r)
             (fetchItems r 0 True
                (setHasMore True (setPage (\<lambda>_. 0) (setItems (\<lambda>_. []) w)))))"

definition debounce_callback :: "app_state \<Rightarrow> world \<Rightarrow> world" where
  \<comment> \<open>lines 59-64, the function handed to setTimeout\<close>
  "debounce_callback r w =
     fetchItems r 0 True (setHasMore True (setPage (\<lambda>_. 0) (setItems (\<lambda>_. []) w)))"

definition search_effect :: "app_state \<Rightarrow> world \<Rightarrow> world" where
  \<comment> \<open>lines 57-67, dependencies [search]: the cleanup of the previous run (clearTimeout),
      then setTimeout(..., 500)\<close>
  "search_effect r w =
     (let w1 = w\<lparr>timer := None\<rparr>
      in if \<not> isLoggedIn r then w1 else w1\<lparr>timer := Some (now w + 500, r)\<rparr>)"

definition observer_callback :: "app_state \<Rightarrow> bool \<Rightarrow> world \<Rightarrow> world" where
  \<comment> \<open>lines 74-78; the second argument is entries[0].isIntersecting\<close>
  "observer_callback r isIntersecting w =
     (if isIntersecting \<and> hasMore r \<and> \<not> loading r then setPage (\<lambda>prev. prev + 1) w else w)"

definition page_effect :: "app_state \<Rightarrow> world \<Rightarrow> world" where
  \<comment> \<open>lines 88-90, dependencies [page]\<close>
  "page_effect r w = (if page r > 0 \<and> isLoggedIn r then fetchItems r (page r) False w else w)"

section \<open>Session manager\<close>

definition login_error_msg :: string where
  "login_error_msg = ''Login yoki parol noto'g'ri!''"

definition handleLogin :: "app_state \<Rightarrow> world \<Rightarrow> world" where
  \<comment> \<open>lines 92-96, up to the await\<close>
  "handleLogin r w = axios_send (PostLogin (username r) (password r)) PLogin w"

definition handleLogin_settle :: "string outcome \<Rightarrow> world \<Rightarrow> world" where
  \<comment> \<open>lines 99-111; the fulfilled value is res.data.token\<close>
  "handleLogin_settle out w =
     (case out of
        Fulfilled tok \<Rightarrow>
          reload (setLoginError [] (setIsLoggedIn True
            (w\<lparr>localStorage :=
                 (localStorage w)\<lparr>ls_token := Some tok, ls_isLoggedIn := Some ''true''\<rparr>\<rparr>)))
      | Rejected err \<Rightarrow> setLoginError login_error_msg (emit ConsoleError w))"

definition handleLogout :: "world \<Rightarrow> world" where
  \<comment> \<open>lines 243-248\<close>
  "handleLogout w = reload (setIsLoggedIn False (clear_credentials w))"

section \<open>Mutation dispatcher\<close>

text \<open>
  \<^verbatim>\<open>parseInt(countStr)\<close> with no radix: skip leading white space, read a sign, take a
  \<^verbatim>\<open>0x\<close>/\<^verbatim>\<open>0X\<close> prefix as radix 16, then read the longest run of digits of the radix; no digit at
  all gives \<^verbatim>\<open>NaN\<close> (\<open>None\<close>). The result is kept as an exact integer (a JavaScript number
  rounds beyond \<open>2\<^sup>5\<^sup>3\<close>, which moves no value across 0 or 100); white space is the ASCII part of
  what JavaScript skips.
\<close>

definition is_ws :: "char \<Rightarrow> bool" where
  "is_ws c = (let n = (of_char c :: nat) in n = 32 \<or> (9 \<le> n \<and> n \<le> 13))"

definition digit_val :: "char \<Rightarrow> nat option" where
  "digit_val c =
     (let n = (of_char c :: nat)
      in if 48 \<le> n \<and> n \<le> 57 then Some (n - 48)
         else if 97 \<le> n \<and> n \<le> 122 then Some (n - 87)
         else if 65 \<le> n \<and> n \<le> 90 then Some (n - 55)
         else None)"

definition radix_digit :: "nat \<Rightarrow> char \<Rightarrow> nat option" where
  "radix_digit R c =
     (case digit_val c of None \<Rightarrow> None | Some d \<Rightarrow> if d < R then Some d else None)"

fun parse_digits :: "nat \<Rightarrow> string \<Rightarrow> nat option \<Rightarrow> nat option" where
  "parse_digits R [] acc = acc"
| "parse_digits R (c # cs) acc =
     (case radix_digit R c of
        None \<Rightarrow> acc
      | Some d \<Rightarrow> parse_digits R cs (Some ((case acc of None \<Rightarrow> 0 | Some a \<Rightarrow> a) * R + d)))"

definition parseInt :: "string \<Rightarrow> int option" where
  "parseInt s =
     (let t = dropWhile is_ws s;
          sign = (case t of c # cs \<Rightarrow> if c = CHR ''-'' then - 1 else 1 | [] \<Rightarrow> (1 :: int));
          u = (case t of c # cs \<Rightarrow> if c = CHR ''+'' \<or> c = CHR ''-'' then cs else t | [] \<Rightarrow> t);
          hex = (take 2 u = ''0x'' \<or> take 2 u = ''0X'');
          R = (if hex then 16 else 10);
          z = (if hex then drop 2 u else u)
      in case parse_digits R z None of None \<Rightarrow> None | Some n \<Rightarrow> Some (sign * int n))"

fun post_items :: "nat \<Rightarrow> string \<Rightarrow> world \<Rightarrow> world" where
  \<comment> \<open>lines 162-164: the loop that starts count create requests\<close>
  "post_items 0 tab w = w"
| "post_items (Suc n) tab w =
     post_items n tab (emit (Http (request_interceptor (localStorage w)) (PostItem tab)) w)"

definition addItems :: "app_state \<Rightarrow> string option \<Rightarrow> bool \<Rightarrow> world \<Rightarrow> world" where
  \<comment> \<open>lines 142-166, up to the await. answer is what prompt returns (None for null), ok is
      what window.confirm returns if it is asked\<close>
  "addItems r answer ok w =
     (let w1 = emit PromptCount w
      in case answer of
           None \<Rightarrow> w1
         | Some countStr \<Rightarrow>
             (case parseInt countStr of
                None \<Rightarrow> emit AlertInvalidCount w1
              | Some count \<Rightarrow>
                  if count \<le> 0 then emit AlertInvalidCount w1
                  else let w2 = (if count > 100 then emit (ConfirmSlowAdd count) w1 else w1)
                       in if count > 100 \<and> \<not> ok then w2
                          else let w3 = post_items (nat count) (activeTab r) (setLoading True w2)
                               in w3\<lparr>inflight := inflight w3 @ [PAdd (nat count) (activeTab r)]\<rparr>))"

text \<open>
  \<^verbatim>\<open>Promise.all\<close> over the create requests, looked at when it settles: it rejects as soon as one
  request is rejected (the others fulfilled or still pending, \<open>None\<close>), fulfils with all the
  values once every request is fulfilled, and is otherwise still pending.
\<close>

datatype 'a settled = AllFulfilled "'a list" | AnyRejected | StillPending

fun promise_all :: "'a outcome option list \<Rightarrow> 'a settled" where
  "promise_all [] = AllFulfilled []"
| "promise_all (Some (Rejected err) # os) = AnyRejected"
| "promise_all (None # os) =
     (case promise_all os of AnyRejected \<Rightarrow> AnyRejected | _ \<Rightarrow> StillPending)"
| "promise_all (Some (Fulfilled x) # os) =
     (case promise_all os of
        AllFulfilled xs \<Rightarrow> AllFulfilled (x # xs)
      | AnyRejected \<Rightarrow> AnyRejected
      | StillPending \<Rightarrow> StillPending)"

definition addItems_settle :: "string \<Rightarrow> item outcome option list \<Rightarrow> world \<Rightarrow> world" where
  \<comment> \<open>lines 166-177, after the await; tab is the closure's activeTab\<close>
  "addItems_settle tab outs w =
     (case promise_all outs of
        StillPending \<Rightarrow> w
      | AllFulfilled newItems \<Rightarrow>
          setLoading False (fetchStats tab (setItems (\<lambda>prev. prev @ newItems) w))
      | AnyRejected \<Rightarrow> setLoading False (emit AlertAddFailed (emit ConsoleError w)))"

definition stats_fields :: "string list" where
  "stats_fields = [''purchase_price'', ''sale_price'', ''sold_date'']"

definition updateItem :: "app_state \<Rightarrow> jsval \<Rightarrow> string \<Rightarrow> jsval \<Rightarrow> world \<Rightarrow> world" where
  \<comment> \<open>lines 180-185, up to the await\<close>
  "updateItem r id' field v w =
     (let newItems = map (\<lambda>it. if item_id it = id' then spread_with it field v else it) (items r)
      in axios_send (PutItem id' field v) (PPut field (activeTab r)) (setItems (\<lambda>_. newItems) w))"

definition updateItem_settle :: "string \<Rightarrow> string \<Rightarrow> unit outcome \<Rightarrow> world \<Rightarrow> world" where
  \<comment> \<open>lines 186-189\<close>
  "updateItem_settle field tab out w =
     (case out of
        Fulfilled u \<Rightarrow> if field \<in> set stats_fields then fetchStats tab w else w
      | Rejected err \<Rightarrow> emit ConsoleError w)"

definition deleteItem :: "app_state \<Rightarrow> jsval \<Rightarrow> bool \<Rightarrow> world \<Rightarrow> world" where
  \<comment> \<open>lines 192-195, up to the await; ok is what window.confirm returns\<close>
  "deleteItem r id' ok w =
     (let w1 = emit ConfirmDelete w
      in if \<not> ok then w1 else axios_send (DeleteItem id') (PDelete id' (activeTab r)) w1)"

definition deleteItem_settle :: "jsval \<Rightarrow> string \<Rightarrow> unit outcome \<Rightarrow> world \<Rightarrow> world" where
  \<comment> \<open>lines 196-198\<close>
  "deleteItem_settle id' tab out w =
     (case out of
        Fulfilled u \<Rightarrow> fetchStats tab (setItems (\<lambda>prev. filter (\<lambda>i. item_id i \<noteq> id') prev) w)
      | Rejected err \<Rightarrow> emit ConsoleError w)"

definition returnItem :: "app_state \<Rightarrow> jsval \<Rightarrow> bool \<Rightarrow> world \<Rightarrow> world" where
  \<comment> \<open>lines 201-204, up to the await\<close>
  "returnItem r id' ok w =
     (let w1 = emit ConfirmReturn w
      in if \<not> ok then w1 else axios_send (PostReturn id') (PReturn id' (activeTab r)) w1)"

definition returnItem_settle :: "jsval \<Rightarrow> string \<Rightarrow> item outcome \<Rightarrow> world \<Rightarrow> world" where
  \<comment> \<open>lines 205-207\<close>
  "returnItem_settle id' tab out w =
     (case out of
        Fulfilled data \<Rightarrow>
          fetchStats tab (setItems (\<lambda>prev. map (\<lambda>i. if item_id i = id' then data else i) prev) w)
      | Rejected err \<Rightarrow> emit ConsoleError w)"

section \<open>The page as a transition system\<close>

datatype view = LoginView | MainView

definition render_view :: "app_state \<Rightarrow> view" where
  \<comment> \<open>line 211: the login form when not logged in, the table otherwise\<close>
  "render_view r = (if \<not> isLoggedIn r then LoginView else MainView)"

definition initial_state :: "local_storage \<Rightarrow> app_state" where
  \<comment> \<open>the initial values of the useState calls, lines 28-40\<close>
  "initial_state ls =
     \<lparr>isLoggedIn = truthy (ls_token ls), username = [], password = [], loginError = [],
      activeTab = ''yangi'', items = [], stats = [], search = [], loading = False,
      page = 0, hasMore = True\<rparr>"

text \<open>
  After a render \<open>r\<close> is committed, the effects whose dependencies differ from the previous
  render \<open>prev\<close> run in source order, all with the closure of \<open>r\<close>. The observer effect
  (lines 72-85) changes no state: it rebuilds the observer whenever \<^verbatim>\<open>hasMore\<close> or \<^verbatim>\<open>loading\<close>
  changed, so the observer's closure always holds the committed values of the two variables
  its callback reads. State changes made by the effects lead to one more render.
\<close>

definition run_effects :: "app_state \<Rightarrow> app_state \<Rightarrow> world \<Rightarrow> world" where
  "run_effects prev r w =
     (let w1 = (if activeTab r \<noteq> activeTab prev \<or> isLoggedIn r \<noteq> isLoggedIn prev
                then tab_effect r w else w);
          w2 = (if search r \<noteq> search prev then search_effect r w1 else w1)
      in if page r \<noteq> page prev then page_effect r w2 else w2)"

definition rerender :: "app_state \<Rightarrow> world \<Rightarrow> world" where
  "rerender prev w = (let r = st w; w1 = run_effects prev r w in run_effects r (st w1) w1)"

definition mount :: "local_storage \<Rightarrow> world" where
  \<comment> \<open>a fresh page load: the first render, on which every effect runs\<close>
  "mount ls =
     (let r = initial_state ls;
          w0 = \<lparr>st = r, localStorage = ls, now = 0, timer = None, inflight = [], trace = [],
                reloaded = False\<rparr>;
          w1 = page_effect r (search_effect r (tab_effect r w0))
      in run_effects r (st w1) w1)"

text \<open>
  What can happen to the page: user input (with the answers the user gives to the dialogs),
  the passing of time, the debounce timer firing, the scroll sentinel reporting, and a request
  in flight (given by its position) settling. Replies are typed by the backend's contract.
  For \<^verbatim>\<open>addItems\<close> the replies of all its requests are given together, \<open>None\<close> for a request
  still unanswered when \<^verbatim>\<open>Promise.all\<close> settles. Each event is handled to completion, with
  the renders and effects it causes, before the next one, as the browser's event loop does.
\<close>

datatype event =
    TypeUsername string
  | TypePassword string
  | SubmitLogin
  | ClickLogout
  | ClickTab string
  | TypeSearch string
  | Tick nat
  | TimerFire
  | Observe bool
  | ClickAdd "string option" bool
  | Edit jsval string jsval
  | ClickDelete jsval bool
  | ClickReturn jsval bool
  | LoginReply nat "string reply"
  | ItemsReply nat "item list reply"
  | StatsReply nat "stats_obj reply"
  | AddReply nat "item reply option list"
  | PutReply nat "unit reply"
  | DeleteReply nat "unit reply"
  | ReturnReply nat "item reply"

definition pending_at :: "world \<Rightarrow> nat \<Rightarrow> pending option" where
  "pending_at w i = (if i < length (inflight w) then Some (inflight w ! i) else None)"

definition settle_at :: "nat \<Rightarrow> world \<Rightarrow> world" where
  "settle_at i w = w\<lparr>inflight := take i (inflight w) @ drop (Suc i) (inflight w)\<rparr>"

fun intercept_all :: "'a outcome option list \<Rightarrow> world \<Rightarrow> world" where
  "intercept_all [] w = w"
| "intercept_all (None # os) w = intercept_all os w"
| "intercept_all (Some out # os) w = intercept_all os (response_interceptor out w)"

text \<open>
  The handler an event runs. Handlers of the user interface are those of the committed render,
  so their closure is the current state; the login form exists only while logged out, the
  table and its controls only while logged in. An event that is not possible changes nothing.
\<close>

fun handler :: "event \<Rightarrow> world \<Rightarrow> world" where
  "handler (TypeUsername v) w = (if isLoggedIn (st w) then w else setUsername v w)"
| "handler (TypePassword v) w = (if isLoggedIn (st w) then w else setPassword v w)"
| "handler SubmitLogin w = (if isLoggedIn (st w) then w else handleLogin (st w) w)"
| "handler ClickLogout w = (if isLoggedIn (st w) then handleLogout w else w)"
| "handler (ClickTab tab) w = (if isLoggedIn (st w) then setActiveTab tab w else w)"
| "handler (TypeSearch v) w = (if isLoggedIn (st w) then setSearch v w else w)"
| "handler (Tick d) w = w\<lparr>now := now w + d\<rparr>"
| "handler TimerFire w =
     (case timer w of
        None \<Rightarrow> w
      | Some (due, r) \<Rightarrow> if due \<le> now w then debounce_callback r (w\<lparr>timer := None\<rparr>) else w)"
| "handler (Observe b) w = (if isLoggedIn (st w) then observer_callback (st w) b w else w)"
| "handler (ClickAdd answer ok) w = (if isLoggedIn (st w) then addItems (st w) answer ok w else w)"
| "handler (Edit id' field v) w =
     (if isLoggedIn (st w) then updateItem (st w) id' field v w else w)"
| "handler (ClickDelete id' ok) w = (if isLoggedIn (st w) then deleteItem (st w) id' ok w else w)"
| "handler (ClickReturn id' ok) w = (if isLoggedIn (st w) then returnItem (st w) id' ok w else w)"
| "handler (LoginReply i rep) w =
     (case pending_at w i of
        Some PLogin \<Rightarrow>
          (let out = axios_settle rep
           in handleLogin_settle out (response_interceptor out (settle_at i w)))
      | _ \<Rightarrow> w)"
| "handler (ItemsReply i rep) w =
     (case pending_at w i of
        Some (PItems reset) \<Rightarrow>
          (let out = axios_settle rep
           in fetchItems_settle reset out (response_interceptor out (settle_at i w)))
      | _ \<Rightarrow> w)"
| "handler (StatsReply i rep) w =
     (case pending_at w i of
        Some PStats \<Rightarrow>
          (let out = axios_settle rep
           in fetchStats_settle out (response_interceptor out (settle_at i w)))
      | _ \<Rightarrow> w)"
| "handler (AddReply i reps) w =
     (case pending_at w i of
        Some (PAdd n tab) \<Rightarrow>
          (let outs = map (map_option axios_settle) reps
           in if length reps \<noteq> n \<or> promise_all outs = StillPending then w
              else addItems_settle tab outs (intercept_all outs (settle_at i w)))
      | _ \<Rightarrow> w)"
| "handler (PutReply i rep) w =
     (case pending_at w i of
        Some (PPut field tab) \<Rightarrow>
          (let out = axios_settle rep
           in updateItem_settle field tab out (response_interceptor out (settle_at i w)))
      | _ \<Rightarrow> w)"
| "handler (DeleteReply i rep) w =
     (case pending_at w i of
        Some (PDelete id' tab) \<Rightarrow>
          (let out = axios_settle rep
           in deleteItem_settle id' tab out (response_interceptor out (settle_at i w)))
      | _ \<Rightarrow> w)"
| "handler (ReturnReply i rep) w =
     (case pending_at w i of
        Some (PReturn id' tab) \<Rightarrow>
          (let out = axios_settle rep
           in returnItem_settle id' tab out (response_interceptor out (settle_at i w)))
      | _ \<Rightarrow> w)"

definition step :: "event \<Rightarrow> world \<Rightarrow> world" where
  \<comment> \<open>one event: its handler, then the renders it causes; a page that is reloading is gone\<close>
  "step e w = (if reloaded w then w else rerender (st w) (handler e w))"

fun run :: "event list \<Rightarrow> world \<Rightarrow> world" where
  "run [] w = w"
| "run (e # es) w = run es (step e w)"

section \<open>Observations\<close>

text \<open>
  The names used in the statements below: the actions a page has taken since an earlier page,
  the list requests in a log, the events that answer a request in flight with a given status,
  a reply that makes \<^verbatim>\<open>axios\<close> reject, the test of line 147 on the parsed count, and the
  classes of events the statements single out.
\<close>

definition is_list_fetch :: "pending \<Rightarrow> bool" where
  "is_list_fetch p = (case p of PItems reset \<Rightarrow> True | _ \<Rightarrow> False)"

definition list_fetches_in_flight :: "world \<Rightarrow> nat" where
  "list_fetches_in_flight w = length (filter is_list_fetch (inflight w))"

fun sent :: "action list \<Rightarrow> request list" where
  \<comment> \<open>the requests of a log, in order\<close>
  "sent [] = []"
| "sent (Http auth req # as) = req # sent as"
| "sent (a # as) = sent as"

definition acted :: "world \<Rightarrow> world \<Rightarrow> action list" where
  \<comment> \<open>what the later page w' has logged beyond the log of w\<close>
  "acted w w' = drop (length (trace w)) (trace w')"

definition is_list_request :: "request \<Rightarrow> bool" where
  "is_list_request req = (case req of GetItems tab limit offset q \<Rightarrow> True | _ \<Rightarrow> False)"

definition list_requests :: "world \<Rightarrow> request list" where
  "list_requests w = filter is_list_request (sent (trace w))"

definition status_of :: "'a reply \<Rightarrow> nat option" where
  "status_of rep = (case rep of Reply status d \<Rightarrow> Some status | NoReply \<Rightarrow> None)"

definition failed :: "'a reply \<Rightarrow> bool" where
  "failed rep = (case axios_settle rep of Rejected err \<Rightarrow> True | Fulfilled d \<Rightarrow> False)"

fun answers_with :: "nat \<Rightarrow> event \<Rightarrow> world \<Rightarrow> bool" where
  \<comment> \<open>the event is a reply with HTTP status s to a request in flight, whatever the request\<close>
  "answers_with s (LoginReply i rep) w =
     (status_of rep = Some s \<and> (case pending_at w i of Some PLogin \<Rightarrow> True | _ \<Rightarrow> False))"
| "answers_with s (ItemsReply i rep) w =
     (status_of rep = Some s \<and>
      (case pending_at w i of Some (PItems reset) \<Rightarrow> True | _ \<Rightarrow> False))"
| "answers_with s (StatsReply i rep) w =
     (status_of rep = Some s \<and> (case pending_at w i of Some PStats \<Rightarrow> True | _ \<Rightarrow> False))"
| "answers_with s (AddReply i reps) w =
     (Some s \<in> set (map (\<lambda>r. case r of None \<Rightarrow> None | Some rep \<Rightarrow> status_of rep) reps) \<and>
      (case pending_at w i of Some (PAdd n tab) \<Rightarrow> length reps = n | _ \<Rightarrow> False))"
| "answers_with s (PutReply i rep) w =
     (status_of rep = Some s \<and>
      (case pending_at w i of Some (PPut field tab) \<Rightarrow> True | _ \<Rightarrow> False))"
| "answers_with s (DeleteReply i rep) w =
     (status_of rep = Some s \<and>
      (case pending_at w i of Some (PDelete id' tab) \<Rightarrow> True | _ \<Rightarrow> False))"
| "answers_with s (ReturnReply i rep) w =
     (status_of rep = Some s \<and>
      (case pending_at w i of Some (PReturn id' tab) \<Rightarrow> True | _ \<Rightarrow> False))"
| "answers_with s e w = False"

definition credentials_wiped :: "world \<Rightarrow> bool" where
  "credentials_wiped w =
     (ls_token (localStorage w) = None \<and> ls_isLoggedIn (localStorage w) = None \<and> reloaded w)"

definition invalid_count :: "int option \<Rightarrow> bool" where
  \<comment> \<open>isNaN(count) || count <= 0\<close>
  "invalid_count c = (case c of None \<Rightarrow> True | Some n \<Rightarrow> n \<le> 0)"

fun elapsed :: "event list \<Rightarrow> nat" where
  \<comment> \<open>the time that passes in a sequence of events\<close>
  "elapsed [] = 0"
| "elapsed (Tick d # es) = d + elapsed es"
| "elapsed (e # es) = elapsed es"

definition is_keystroke :: "event \<Rightarrow> bool" where
  "is_keystroke e = (case e of TypeSearch v \<Rightarrow> True | _ \<Rightarrow> False)"

definition is_reset :: "event \<Rightarrow> bool" where
  \<comment> \<open>a click on a tab, or the search debounce firing\<close>
  "is_reset e = (case e of ClickTab tab \<Rightarrow> True | TimerFire \<Rightarrow> True | _ \<Rightarrow> False)"

definition is_change :: "event \<Rightarrow> bool" where
  \<comment> \<open>a click on a tab, or a keystroke in the search box\<close>
  "is_change e = (case e of ClickTab tab \<Rightarrow> True | TypeSearch v \<Rightarrow> True | _ \<Rightarrow> False)"

section \<open>Example inputs\<close>

text \<open>
  A stored session and three rows; the page after it has loaded them; and that page or the
  freshly mounted one after a wait, after the timer armed on mount has fired, after a
  keystroke in the search box, an edit, or a request for two new rows; and two pages on which
  a list request has been answered with status 500.
\<close>

definition demo_storage :: local_storage where
  "demo_storage = \<lparr>ls_token = Some ''t0k3n'', ls_isLoggedIn = Some ''true''\<rparr>"

definition demo_rows :: "item list" where
  "demo_rows =
     [[(''id'', JNum 1), (''fio'', JStr ''Ali''), (''purchase_price'', JNum 100)],
      [(''id'', JNum 2), (''fio'', JStr ''Vali''), (''purchase_price'', JNum 200)],
      [(''id'', JNum 3), (''fio'', JStr ''Gani''), (''purchase_price'', JNum 300)]]"

definition demo_loaded :: world where
  "demo_loaded = step (ItemsReply 0 (Reply 200 demo_rows)) (mount demo_storage)"

definition demo_waited :: world where
  "demo_waited = step (Tick 500) (mount demo_storage)"

definition demo_refetching :: world where
  "demo_refetching = step TimerFire demo_waited"



definition demo_reset :: world where
  "demo_reset = run [Tick 500, TimerFire, ItemsReply 1 (Reply 500 [])] demo_loaded"

definition demo_typed :: world where
  "demo_typed = step (Tick 500) (step (TypeSearch ''a'') (mount demo_storage))"

definition demo_searching :: world where
  "demo_searching = step (Tick 500) (step (TypeSearch ''a'') demo_loaded)"

definition demo_edited :: world where
  "demo_edited = step (Edit (JNum 1) ''purchase_price'' (JNum 500000)) demo_loaded"

definition demo_renamed :: world where
  "demo_renamed = step (Edit (JNum 2) ''fio'' (JStr ''Ali'')) demo_loaded"

definition demo_adding :: world where
  "demo_adding = step (ClickAdd (Some ''2'') False) demo_loaded"

section \<open>Basic facts\<close>

lemmas state_setter_defs =
  setIsLoggedIn_def setUsername_def setPassword_def setLoginError_def setActiveTab_def
  setItems_def setStats_def setSearch_def setLoading_def setPage_def setHasMore_def

lemmas setter_defs = state_setter_defs emit_def axios_send_def clear_credentials_def reload_def

lemmas fetch_defs =
  fetchItems_def fetchItems_settle_def fetchStats_def fetchStats_settle_def tab_effect_def
  debounce_callback_def search_effect_def observer_callback_def page_effect_def

lemmas handler_defs =
  setter_defs fetch_defs handleLogin_def handleLogin_settle_def handleLogout_def
  addItems_def addItems_settle_def updateItem_def updateItem_settle_def
  deleteItem_def deleteItem_settle_def returnItem_def returnItem_settle_def
  response_interceptor_def settle_at_def Let_def

lemma sent_append [simp]: "sent (xs @ ys) = sent xs @ sent ys"
  by (induction xs rule: sent.induct) simp_all

lemma sent_replicate [simp]: "sent (replicate n (Http a req)) = replicate n req"
  by (induction n) simp_all

lemma elapsed_Cons: "elapsed (e # es) = elapsed [e] + elapsed es"
  by (cases e) simp_all

lemma promise_all_rejected:
  "Some (Rejected err) \<in> set outs \<Longrightarrow> promise_all outs = AnyRejected"
  by (induction outs rule: promise_all.induct) (auto split: settled.splits)

lemma parseInt_examples:
  "parseInt ''0'' = Some 0" "parseInt ''-3'' = Some (- 3)" "parseInt ''abc'' = None"
  "parseInt ''101'' = Some 101" "parseInt ''2'' = Some 2"
  by (simp_all add: parseInt_def is_ws_def digit_val_def radix_digit_def Let_def)

subsection \<open>What each piece leaves alone\<close>

lemma fetchItems_frame [simp]:
  "localStorage (fetchItems r p b w) = localStorage w"
  "now (fetchItems r p b w) = now w"
  "timer (fetchItems r p b w) = timer w"
  "reloaded (fetchItems r p b w) = reloaded w"
  "isLoggedIn (st (fetchItems r p b w)) = isLoggedIn (st w)"
  "activeTab (st (fetchItems r p b w)) = activeTab (st w)"
  "search (st (fetchItems r p b w)) = search (st w)"
  "page (st (fetchItems r p b w)) = page (st w)"
  "hasMore (st (fetchItems r p b w)) = hasMore (st w)"
  "items (st (fetchItems r p b w)) = items (st w)"
  by (simp_all add: fetchItems_def setter_defs Let_def)

lemma fetchStats_frame [simp]:
  "st (fetchStats tab w) = st w"
  "localStorage (fetchStats tab w) = localStorage w"
  "now (fetchStats tab w) = now w"
  "timer (fetchStats tab w) = timer w"
  "reloaded (fetchStats tab w) = reloaded w"
  by (simp_all add: fetchStats_def setter_defs)

lemma tab_effect_frame [simp]:
  "localStorage (tab_effect r w) = localStorage w"
  "now (tab_effect r w) = now w"
  "timer (tab_effect r w) = timer w"
  "reloaded (tab_effect r w) = reloaded w"
  "isLoggedIn (st (tab_effect r w)) = isLoggedIn (st w)"
  "activeTab (st (tab_effect r w)) = activeTab (st w)"
  "search (st (tab_effect r w)) = search (st w)"
  "page (st (tab_effect r w)) = (if isLoggedIn r then 0 else page (st w))"
  by (simp_all add: tab_effect_def setter_defs)

lemma search_effect_frame [simp]:
  "st (search_effect r w) = st w"
  "localStorage (search_effect r w) = localStorage w"
  "now (search_effect r w) = now w"
  "reloaded (search_effect r w) = reloaded w"
  "trace (search_effect r w) = trace w"
  "inflight (search_effect r w) = inflight w"
  by (simp_all add: search_effect_def Let_def)

lemma page_effect_frame [simp]:
  "localStorage (page_effect r w) = localStorage w"
  "now (page_effect r w) = now w"
  "timer (page_effect r w) = timer w"
  "reloaded (page_effect r w) = reloaded w"
  "isLoggedIn (st (page_effect r w)) = isLoggedIn (st w)"
  "activeTab (st (page_effect r w)) = activeTab (st w)"
  "search (st (page_effect r w)) = search (st w)"
  "page (st (page_effect r w)) = page (st w)"
  "hasMore (st (page_effect r w)) = hasMore (st w)"
  "items (st (page_effect r w)) = items (st w)"
  by (simp_all add: page_effect_def)

lemma response_interceptor_frame [simp]:
  "st (response_interceptor out w) = st w"
  "now (response_interceptor out w) = now w"
  "timer (response_interceptor out w) = timer w"
  "inflight (response_interceptor out w) = inflight w"
  "sent (trace (response_interceptor out w)) = sent (trace w)"
  by (simp_all add: response_interceptor_def setter_defs split: outcome.splits)

lemma response_interceptor_acted:
  "\<exists>acts. trace (response_interceptor out w) = trace w @ acts \<and> sent acts = []"
  by (simp add: response_interceptor_def setter_defs split: outcome.splits)

lemma intercept_all_frame [simp]:
  "st (intercept_all outs w) = st w"
  "inflight (intercept_all outs w) = inflight w"
  "now (intercept_all outs w) = now w"
  "timer (intercept_all outs w) = timer w"
  "sent (trace (intercept_all outs w)) = sent (trace w)"
  by (induction outs w rule: intercept_all.induct) simp_all

lemma intercept_all_acted:
  "\<exists>acts. trace (intercept_all outs w) = trace w @ acts \<and> sent acts = []"
proof (induction outs w rule: intercept_all.induct)
  case (3 out os w)
  then obtain acts where a: "trace (intercept_all os (response_interceptor out w))
      = trace (response_interceptor out w) @ acts" "sent acts = []" by blast
  have "\<exists>a. trace (response_interceptor out w) = trace w @ a \<and> sent a = []"
    by (rule response_interceptor_acted)
  with a show ?case by auto
qed simp_all

lemma settle_at_frame [simp]:
  "st (settle_at i w) = st w"
  "localStorage (settle_at i w) = localStorage w"
  "now (settle_at i w) = now w"
  "timer (settle_at i w) = timer w"
  "trace (settle_at i w) = trace w"
  "reloaded (settle_at i w) = reloaded w"
  by (simp_all add: settle_at_def)

lemma post_items_trace:
  "trace (post_items n tab w)
     = trace w @ replicate n (Http (request_interceptor (localStorage w)) (PostItem tab))"
proof (induction n arbitrary: w)
  case 0
  then show ?case by simp
next
  case (Suc n)
  show ?case
    by (simp add: Suc.IH emit_def replicate_append_same)
qed

lemma post_items_frame [simp]:
  "st (post_items n tab w) = st w"
  "localStorage (post_items n tab w) = localStorage w"
  "inflight (post_items n tab w) = inflight w"
  "now (post_items n tab w) = now w"
  "timer (post_items n tab w) = timer w"
  "reloaded (post_items n tab w) = reloaded w"
  by (induction n arbitrary: w) (simp_all add: emit_def)

lemma fetchItems_settle_frame [simp]:
  "loading (st (fetchItems_settle reset out w)) = False"
  "isLoggedIn (st (fetchItems_settle reset out w)) = isLoggedIn (st w)"
  "activeTab (st (fetchItems_settle reset out w)) = activeTab (st w)"
  "search (st (fetchItems_settle reset out w)) = search (st w)"
  "page (st (fetchItems_settle reset out w)) = page (st w)"
  "localStorage (fetchItems_settle reset out w) = localStorage w"
  "now (fetchItems_settle reset out w) = now w"
  "timer (fetchItems_settle reset out w) = timer w"
  "inflight (fetchItems_settle reset out w) = inflight w"
  "reloaded (fetchItems_settle reset out w) = reloaded w"
  "sent (trace (fetchItems_settle reset out w)) = sent (trace w)"
  by (simp_all add: fetchItems_settle_def setter_defs Let_def split: outcome.splits)

lemma deleteItem_settle_frame [simp]:
  "isLoggedIn (st (deleteItem_settle i t out w)) = isLoggedIn (st w)"
  "activeTab (st (deleteItem_settle i t out w)) = activeTab (st w)"
  "search (st (deleteItem_settle i t out w)) = search (st w)"
  "page (st (deleteItem_settle i t out w)) = page (st w)"
  by (simp_all add: deleteItem_settle_def fetchStats_def setter_defs split: outcome.splits)

lemma settle_storage_frames [simp]:
  "localStorage (fetchStats_settle sout w) = localStorage w"
  "reloaded (fetchStats_settle sout w) = reloaded w"
  "localStorage (addItems_settle tab outs w) = localStorage w"
  "reloaded (addItems_settle tab outs w) = reloaded w"
  "localStorage (updateItem_settle f tab uout w) = localStorage w"
  "reloaded (updateItem_settle f tab uout w) = reloaded w"
  "localStorage (deleteItem_settle i tab uout w) = localStorage w"
  "reloaded (deleteItem_settle i tab uout w) = reloaded w"
  "localStorage (returnItem_settle i tab iout w) = localStorage w"
  "reloaded (returnItem_settle i tab iout w) = reloaded w"
  "localStorage (handleLogin_settle (Rejected err) w) = localStorage w"
  "reloaded (handleLogin_settle (Rejected err) w) = reloaded w"
  by (simp_all add: fetchStats_settle_def addItems_settle_def updateItem_settle_def
      deleteItem_settle_def returnItem_settle_def handleLogin_settle_def fetchStats_def
      setter_defs split: outcome.splits settled.splits)

lemma list_requests_st [simp]: "list_requests (w\<lparr>st := s\<rparr>) = list_requests w"
  by (simp add: list_requests_def)

lemma list_requests_simps [simp]:
  "list_requests (fetchStats tab w) = list_requests w"
  "list_requests (settle_at i w) = list_requests w"
  "list_requests (response_interceptor out w) = list_requests w"
  "list_requests (intercept_all outs w) = list_requests w"
  "list_requests (post_items n tab w) = list_requests w"
  "list_requests (search_effect r w) = list_requests w"
  "loading r \<Longrightarrow> list_requests (fetchItems r p b w) = list_requests w"
  by (simp_all add: list_requests_def fetchStats_def fetchItems_def setter_defs is_list_request_def
      post_items_trace)

subsection \<open>Rendering\<close>

lemma run_effects_same:
  "activeTab r = activeTab prev \<Longrightarrow> isLoggedIn r = isLoggedIn prev \<Longrightarrow>
   search r = search prev \<Longrightarrow> page r = page prev \<Longrightarrow> run_effects prev r w = w"
  by (simp add: run_effects_def)

lemma run_effects_frame [simp]:
  "localStorage (run_effects prev r w) = localStorage w"
  "now (run_effects prev r w) = now w"
  "reloaded (run_effects prev r w) = reloaded w"
  "isLoggedIn (st (run_effects prev r w)) = isLoggedIn (st w)"
  "activeTab (st (run_effects prev r w)) = activeTab (st w)"
  "search (st (run_effects prev r w)) = search (st w)"
  by (simp_all add: run_effects_def Let_def)

lemma rerender_same:
  "activeTab (st w) = activeTab prev \<Longrightarrow> isLoggedIn (st w) = isLoggedIn prev \<Longrightarrow>
   search (st w) = search prev \<Longrightarrow> page (st w) = page prev \<Longrightarrow> rerender prev w = w"
  by (simp add: rerender_def run_effects_same Let_def)

text \<open>
  The render caused by the effects' own state changes runs no effect that does anything: the
  effects change neither the tab, the login state nor the search text, and they change the
  page only to 0, for which the page effect does nothing. So one pass of effects is the whole
  of a re-render.
\<close>

lemma second_pass:
  "run_effects (st w) (st (run_effects prev (st w) w)) (run_effects prev (st w) w)
     = run_effects prev (st w) w"
  by (simp add: run_effects_def Let_def page_effect_def)

lemma rerender_one_pass: "rerender prev w = run_effects prev (st w) w"
  by (simp add: rerender_def Let_def second_pass)

lemma run_effects_quiet:
  assumes "activeTab r = activeTab prev" and "isLoggedIn r = isLoggedIn prev \<or> \<not> isLoggedIn r"
    and "page r = page prev"
  shows "st (run_effects prev r w) = st w"
    and "list_requests (run_effects prev r w) = list_requests w"
  using assms by (auto simp: run_effects_def tab_effect_def Let_def)

lemma step_same:
  assumes "\<not> reloaded w"
    and "activeTab (st (handler e w)) = activeTab (st w)"
    and "isLoggedIn (st (handler e w)) = isLoggedIn (st w)"
    and "search (st (handler e w)) = search (st w)"
    and "page (st (handler e w)) = page (st w)"
  shows "step e w = handler e w"
  using assms by (simp add: step_def rerender_same)

lemma step_storage:
  "\<not> reloaded w \<Longrightarrow> localStorage (step e w) = localStorage (handler e w)"
  "\<not> reloaded w \<Longrightarrow> reloaded (step e w) = reloaded (handler e w)"
  by (simp_all add: step_def rerender_one_pass)

lemma mount_state:
  "st (mount ls)
     = (if truthy (ls_token ls) then (initial_state ls)\<lparr>loading := True\<rparr> else initial_state ls)"
  by (simp add: mount_def Let_def run_effects_def initial_state_def fetch_defs setter_defs)

subsection \<open>What a handler can change\<close>

lemma handler_timer:
  "timer (handler e w)
     = (if e = TimerFire \<and> (\<exists>due r. timer w = Some (due, r) \<and> due \<le> now w) then None
        else timer w)"
  by (cases e)
    (auto simp: handler_defs split: option.splits pending.splits outcome.splits settled.splits)

lemma handler_now: "now (handler e w) = now w + elapsed [e]"
  by (cases e)
    (auto simp: handler_defs split: option.splits pending.splits outcome.splits settled.splits)

lemma handler_search:
  "search (st (handler e w))
     = (case e of TypeSearch v \<Rightarrow> if isLoggedIn (st w) then v else search (st w)
        | _ \<Rightarrow> search (st w))"
  by (cases e)
    (auto simp: handler_defs split: option.splits pending.splits outcome.splits settled.splits)

lemma handler_activeTab:
  "activeTab (st (handler e w))
     = (case e of ClickTab tab \<Rightarrow> if isLoggedIn (st w) then tab else activeTab (st w)
        | _ \<Rightarrow> activeTab (st w))"
  by (cases e)
    (auto simp: handler_defs split: option.splits pending.splits outcome.splits settled.splits)

lemma handler_page:
  "e \<noteq> TimerFire \<Longrightarrow> \<not> hasMore (st w) \<or> loading (st w) \<Longrightarrow>
   page (st (handler e w)) = page (st w)"
  by (cases e)
    (auto simp: handler_defs split: option.splits pending.splits outcome.splits settled.splits)

lemma handler_hasMore:
  "e \<noteq> TimerFire \<Longrightarrow> \<not> hasMore (st w) \<Longrightarrow> \<not> hasMore (st (handler e w))"
  by (cases e)
    (auto simp: handler_defs split: option.splits pending.splits outcome.splits settled.splits)

lemma handler_isLoggedIn:
  "isLoggedIn (st w) \<Longrightarrow> isLoggedIn (st (handler e w)) \<or> reloaded (handler e w)"
  by (cases e)
    (auto simp: handler_defs split: option.splits pending.splits outcome.splits settled.splits)

lemma handler_list_requests:
  "e \<noteq> TimerFire \<Longrightarrow> list_requests (handler e w) = list_requests w"
  by (cases e)
    (auto simp: list_requests_def is_list_request_def handler_defs post_items_trace
      split: option.splits pending.splits outcome.splits settled.splits)

subsection \<open>Single steps\<close>

lemma step_ItemsReply:
  assumes "pending_at w i = Some (PItems reset)" and "\<not> reloaded w"
  shows "step (ItemsReply i rep) w =
           fetchItems_settle reset (axios_settle rep)
             (response_interceptor (axios_settle rep) (settle_at i w))"
proof -
  have h: "handler (ItemsReply i rep) w =
           fetchItems_settle reset (axios_settle rep)
             (response_interceptor (axios_settle rep) (settle_at i w))"
    using assms(1) by (simp add: Let_def)
  show ?thesis
    using assms(2) by (simp add: step_same h del: handler.simps)
qed

lemma step_DeleteReply:
  assumes "pending_at w i = Some (PDelete id' tab)" and "\<not> reloaded w"
  shows "step (DeleteReply i rep) w =
           deleteItem_settle id' tab (axios_settle rep)
             (response_interceptor (axios_settle rep) (settle_at i w))"
proof -
  have h: "handler (DeleteReply i rep) w =
           deleteItem_settle id' tab (axios_settle rep)
             (response_interceptor (axios_settle rep) (settle_at i w))"
    using assms(1) by (simp add: Let_def)
  show ?thesis
    using assms(2) by (simp add: step_same h del: handler.simps)
qed

lemma step_ClickDelete:
  assumes "isLoggedIn (st w)" and "\<not> reloaded w"
  shows "step (ClickDelete id' ok) w = deleteItem (st w) id' ok w"
proof -
  have "step (ClickDelete id' ok) w = handler (ClickDelete id' ok) w"
    using assms(2) by (intro step_same) (simp_all add: deleteItem_def setter_defs Let_def)
  then show ?thesis using assms(1) by simp
qed

lemma step_Edit:
  assumes "isLoggedIn (st w)" and "\<not> reloaded w"
  shows "step (Edit id' field v) w = updateItem (st w) id' field v w"
proof -
  have "step (Edit id' field v) w = handler (Edit id' field v) w"
    using assms(2) by (intro step_same) (simp_all add: updateItem_def setter_defs Let_def)
  then show ?thesis using assms(1) by simp
qed

lemma step_PutReply:
  assumes "pending_at w i = Some (PPut field tab)" and "\<not> reloaded w"
  shows "step (PutReply i rep) w =
           updateItem_settle field tab (axios_settle rep)
             (response_interceptor (axios_settle rep) (settle_at i w))"
proof -
  have h: "handler (PutReply i rep) w =
           updateItem_settle field tab (axios_settle rep)
             (response_interceptor (axios_settle rep) (settle_at i w))"
    using assms(1) by (simp add: Let_def)
  have "step (PutReply i rep) w = handler (PutReply i rep) w"
    using assms(2)
    by (intro step_same)
      (simp_all add: h updateItem_settle_def fetchStats_def setter_defs
        split: outcome.splits del: handler.simps)
  then show ?thesis by (simp only: h)
qed

lemma step_TypeSearch:
  assumes "isLoggedIn (st w)" and "\<not> reloaded w" and "v \<noteq> search (st w)"
  shows "step (TypeSearch v) w
           = w\<lparr>st := (st w)\<lparr>search := v\<rparr>, timer := Some (now w + 500, (st w)\<lparr>search := v\<rparr>)\<rparr>"
  using assms
  by (simp add: step_def rerender_one_pass run_effects_def search_effect_def setter_defs Let_def)

lemma timer_not_due:
  assumes "timer w = Some (due, r)" and "now w < due"
  shows "step TimerFire w = w"
  using assms by (simp add: step_def rerender_same)

subsection \<open>The debounce timer\<close>

lemma step_keeps_timer:
  assumes "\<not> is_keystroke e" and "timer w = Some (due, r)" and "now w < due"
  shows "timer (step e w) = Some (due, r)"
proof (cases "reloaded w")
  case True
  then show ?thesis by (simp add: step_def assms(2))
next
  case False
  have s: "search (st (handler e w)) = search (st w)"
    using assms(1) by (cases e) (simp_all add: handler_search is_keystroke_def del: handler.simps)
  have "timer (handler e w) = Some (due, r)"
    using assms(2,3) by (simp add: handler_timer del: handler.simps)
  then show ?thesis
    using False s
    by (simp add: step_def rerender_one_pass run_effects_def Let_def del: handler.simps)
qed

lemma step_now: "now (step e w) \<le> now w + elapsed [e]"
  by (simp add: step_def rerender_one_pass handler_now del: handler.simps)

lemma run_keeps_timer:
  assumes "\<forall>e\<in>set evs. \<not> is_keystroke e" and "timer w = Some (due, r)"
    and "now w + elapsed evs < due"
  shows "timer (run evs w) = Some (due, r) \<and> now (run evs w) < due"
  using assms
proof (induction evs arbitrary: w)
  case Nil
  then show ?case by simp
next
  case (Cons e es)
  have lt: "now w < due" using Cons.prems(3) by simp
  have t: "timer (step e w) = Some (due, r)"
    using Cons.prems(1,2) lt by (simp add: step_keeps_timer)
  have "now (step e w) + elapsed es \<le> now w + elapsed [e] + elapsed es"
    using step_now [of e w] by simp
  also have "\<dots> = now w + elapsed (e # es)"
    using elapsed_Cons [of e es] by simp
  finally have n: "now (step e w) + elapsed es < due"
    using Cons.prems(3) by simp
  show ?case
    using Cons.IH [OF _ t n] Cons.prems(1) by simp
qed

lemma step_keeps_no_timer:
  assumes "\<not> is_keystroke e" and "timer w = None"
  shows "timer (step e w) = None"
proof (cases "reloaded w")
  case True
  then show ?thesis by (simp add: step_def assms(2))
next
  case False
  have s: "search (st (handler e w)) = search (st w)"
    using assms(1) by (cases e) (simp_all add: handler_search is_keystroke_def del: handler.simps)
  have "timer (handler e w) = None"
    using assms(2) by (simp add: handler_timer del: handler.simps)
  then show ?thesis
    using False s
    by (simp add: step_def rerender_one_pass run_effects_def Let_def del: handler.simps)
qed

lemma no_timer_to_fire:
  assumes "timer w = None"
  shows "step TimerFire w = w"
  using assms by (simp add: step_def rerender_same)

subsection \<open>The example pages\<close>

lemmas eval_defs =
  setter_defs fetch_defs step_def rerender_one_pass run_effects_def pending_at_def settle_at_def
  axios_settle_def response_interceptor_def truthy_def request_interceptor_def Let_def

lemmas run_defs = eval_defs acted_def list_fetches_in_flight_def is_list_fetch_def

lemma demo_storage_simps [simp]:
  "ls_token demo_storage = Some ''t0k3n''" "ls_isLoggedIn demo_storage = Some ''true''"
  by (simp_all add: demo_storage_def)

lemma initial_demo:
  "initial_state demo_storage =
     \<lparr>isLoggedIn = True, username = [], password = [], loginError = [],
      activeTab = ''yangi'', items = [], stats = [], search = [], loading = False,
      page = 0, hasMore = True\<rparr>"
  by (simp add: initial_state_def truthy_def)

lemma mount_demo:
  "mount demo_storage =
     \<lparr>st = \<lparr>isLoggedIn = True, username = [], password = [], loginError = [],
             activeTab = ''yangi'', items = [], stats = [], search = [], loading = True,
             page = 0, hasMore = True\<rparr>,
      localStorage = demo_storage, now = 0,
      timer = Some (500, initial_state demo_storage),
      inflight = [PItems True, PStats],
      trace = [Http (Some ''Bearer t0k3n'') (GetItems ''yangi'' 500 0 []),
               Http (Some ''Bearer t0k3n'') (GetStats ''yangi'')],
      reloaded = False\<rparr>"
  by (simp add: mount_def initial_demo eval_defs)

lemma demo_loaded_eq:
  "demo_loaded =
     \<lparr>st = \<lparr>isLoggedIn = True, username = [], password = [], loginError = [],
             activeTab = ''yangi'', items = demo_rows, stats = [], search = [], loading = False,
             page = 0, hasMore = False\<rparr>,
      localStorage = demo_storage, now = 0,
      timer = Some (500, initial_state demo_storage),
      inflight = [PStats],
      trace = [Http (Some ''Bearer t0k3n'') (GetItems ''yangi'' 500 0 []),
               Http (Some ''Bearer t0k3n'') (GetStats ''yangi'')],
      reloaded = False\<rparr>"
  by (simp add: demo_loaded_def mount_demo demo_rows_def eval_defs)

lemma demo_waited_eq: "demo_waited = (mount demo_storage)\<lparr>now := 500\<rparr>"
  by (simp add: demo_waited_def mount_demo eval_defs)

lemma demo_typed_eq:
  "demo_typed =
     \<lparr>st = \<lparr>isLoggedIn = True, username = [], password = [], loginError = [],
             activeTab = ''yangi'', items = [], stats = [], search = ''a'', loading = True,
             page = 0, hasMore = True\<rparr>,
      localStorage = demo_storage, now = 500,
      timer = Some (500, \<lparr>isLoggedIn = True, username = [], password = [], loginError = [],
             activeTab = ''yangi'', items = [], stats = [], search = ''a'', loading = True,
             page = 0, hasMore = True\<rparr>),
      inflight = [PItems True, PStats],
      trace = [Http (Some ''Bearer t0k3n'') (GetItems ''yangi'' 500 0 []),
               Http (Some ''Bearer t0k3n'') (GetStats ''yangi'')],
      reloaded = False\<rparr>"
  by (simp add: demo_typed_def mount_demo eval_defs)


lemma demo_searching_eq:
  "demo_searching =
     demo_loaded\<lparr>st := (st demo_loaded)\<lparr>search := ''a''\<rparr>, now := 500,
       timer := Some (500, (st demo_loaded)\<lparr>search := ''a''\<rparr>)\<rparr>"
  by (simp add: demo_searching_def demo_loaded_eq eval_defs)

lemma demo_edited_eq:
  "demo_edited =
     demo_loaded\<lparr>st := (st demo_loaded)\<lparr>items :=
        [[(''id'', JNum 1), (''fio'', JStr ''Ali''), (''purchase_price'', JNum 500000)],
         [(''id'', JNum 2), (''fio'', JStr ''Vali''), (''purchase_price'', JNum 200)],
         [(''id'', JNum 3), (''fio'', JStr ''Gani''), (''purchase_price'', JNum 300)]]\<rparr>,
       inflight := [PStats, PPut ''purchase_price'' ''yangi''],
       trace := trace demo_loaded @
         [Http (Some ''Bearer t0k3n'') (PutItem (JNum 1) ''purchase_price'' (JNum 500000))]\<rparr>"
  by (simp add: demo_edited_def demo_loaded_eq demo_rows_def eval_defs
      updateItem_def item_id_def get_prop_def spread_with_def)

lemma demo_renamed_eq:
  "demo_renamed =
     demo_loaded\<lparr>st := (st demo_loaded)\<lparr>items :=
        [[(''id'', JNum 1), (''fio'', JStr ''Ali''), (''purchase_price'', JNum 100)],
         [(''id'', JNum 2), (''fio'', JStr ''Ali''), (''purchase_price'', JNum 200)],
         [(''id'', JNum 3), (''fio'', JStr ''Gani''), (''purchase_price'', JNum 300)]]\<rparr>,
       inflight := [PStats, PPut ''fio'' ''yangi''],
       trace := trace demo_loaded @
         [Http (Some ''Bearer t0k3n'') (PutItem (JNum 2) ''fio'' (JStr ''Ali''))]\<rparr>"
  by (simp add: demo_renamed_def demo_loaded_eq demo_rows_def eval_defs
      updateItem_def item_id_def get_prop_def spread_with_def)

lemma demo_adding_eq:
  "demo_adding =
     demo_loaded\<lparr>st := (st demo_loaded)\<lparr>loading := True\<rparr>,
       inflight := [PStats, PAdd 2 ''yangi''],
       trace := trace demo_loaded @
         [PromptCount, Http (Some ''Bearer t0k3n'') (PostItem ''yangi''),
          Http (Some ''Bearer t0k3n'') (PostItem ''yangi'')]\<rparr>"
  by (simp add: demo_adding_def demo_loaded_eq eval_defs addItems_def parseInt_examples
      numeral_2_eq_2)

lemma demo_refetching_eq:
  "demo_refetching =
     (mount demo_storage)\<lparr>now := 500, timer := None,
        inflight := [PItems True, PStats, PItems True],
        trace := trace (mount demo_storage)
                   @ [Http (Some ''Bearer t0k3n'') (GetItems ''yangi'' 500 0 [])]\<rparr>"
  by (simp add: demo_refetching_def demo_waited_eq mount_demo initial_demo eval_defs)

section \<open>Session manager: a 401 or 403 reply logs the user out\<close>

lemma interceptor_clears:
  assumes "s = 401 \<or> s = 403"
  shows "ls_token (localStorage (response_interceptor (Rejected (Some s)) w)) = None"
    and "ls_isLoggedIn (localStorage (response_interceptor (Rejected (Some s)) w)) = None"
    and "reloaded (response_interceptor (Rejected (Some s)) w)"
  using assms by (auto simp: response_interceptor_def setter_defs)

lemma axios_settle_rejected:
  "s = 401 \<or> s = 403 \<Longrightarrow> axios_settle (Reply s d) = Rejected (Some s)"
  by (auto simp: axios_settle_def)

lemma response_interceptor_wiped:
  "credentials_wiped w \<Longrightarrow> credentials_wiped (response_interceptor out w)"
  by (simp add: credentials_wiped_def response_interceptor_def setter_defs split: outcome.splits)

lemma intercept_all_wiped: "credentials_wiped w \<Longrightarrow> credentials_wiped (intercept_all outs w)"
  by (induction outs w rule: intercept_all.induct) (simp_all add: response_interceptor_wiped)

lemma intercept_all_401:
  assumes "s = 401 \<or> s = 403"
    and "Some s \<in> set (map (\<lambda>r. case r of None \<Rightarrow> None | Some rep \<Rightarrow> status_of rep) reps)"
  shows "credentials_wiped (intercept_all (map (map_option axios_settle) reps) w)"
  using assms(2)
proof (induction reps arbitrary: w)
  case Nil
  then show ?case by simp
next
  case (Cons r reps)
  show ?case
  proof (cases r)
    case None
    with Cons show ?thesis by simp
  next
    case (Some rep)
    show ?thesis
    proof (cases "status_of rep = Some s")
      case True
      then obtain d where rep: "rep = Reply s d"
        by (auto simp: status_of_def split: reply.splits)
      have "credentials_wiped (response_interceptor (axios_settle rep) w)"
        using interceptor_clears [OF assms(1), of w]
        by (simp add: credentials_wiped_def rep axios_settle_rejected [OF assms(1)])
      then show ?thesis
        by (simp add: Some intercept_all_wiped)
    next
      case False
      with Cons Some show ?thesis by simp
    qed
  qed
qed

text \<open>
  Claim C1. Let an event answer a request in flight with HTTP status 401 or 403: the reply to
  a login, list, statistics, create, update, delete or return request, and for the create
  requests of \<^verbatim>\<open>addItems\<close> any one reply among them. Then after the event the token and the
  login flag are gone from \<^verbatim>\<open>localStorage\<close>, \<^verbatim>\<open>window.location.reload()\<close> has been called, and the
  page that loads from the storage left behind shows the login view.
\<close>

theorem unauthorized_forces_logout:
  assumes "answers_with s e w" and "s = 401 \<or> s = 403" and "\<not> reloaded w"
  shows "ls_token (localStorage (step e w)) = None \<and>
         ls_isLoggedIn (localStorage (step e w)) = None \<and>
         reloaded (step e w) \<and>
         render_view (st (mount (localStorage (step e w)))) = LoginView"
proof -
  have w: "credentials_wiped (handler e w)"
  proof (cases e)
    case (AddReply i reps)
    then obtain n tab where p: "pending_at w i = Some (PAdd n tab)" and n: "length reps = n"
      and s: "Some s \<in> set (map (\<lambda>r. case r of None \<Rightarrow> None | Some rep \<Rightarrow> status_of rep) reps)"
      using assms(1) by (auto split: option.splits pending.splits)
    from s obtain rep where "Some rep \<in> set reps" "status_of rep = Some s"
      by (auto split: option.splits)
    then obtain d where "Some (Reply s d) \<in> set reps"
      by (auto simp: status_of_def split: reply.splits)
    then have "Some (Rejected (Some s)) \<in> set (map (map_option axios_settle) reps)"
      using axios_settle_rejected [OF assms(2), of d] by force
    then have "promise_all (map (map_option axios_settle) reps) = AnyRejected"
      by (rule promise_all_rejected)
    then show ?thesis
      using intercept_all_401 [OF assms(2) s, of "settle_at i w"]
      by (simp add: AddReply p n credentials_wiped_def Let_def)
  qed (use assms in \<open>auto simp: credentials_wiped_def interceptor_clears status_of_def
          axios_settle_rejected Let_def split: option.splits pending.splits reply.splits\<close>)
  then have "credentials_wiped (step e w)"
    using assms(3) by (simp add: credentials_wiped_def step_storage)
  then show ?thesis
    by (simp add: credentials_wiped_def render_view_def mount_state truthy_def initial_state_def)
qed

theorem unauthorized_forces_logout_witness:
  "answers_with 403 (ItemsReply 0 (Reply 403 [])) (mount demo_storage) \<and>
   ((403 :: nat) = 401 \<or> (403 :: nat) = 403) \<and>
   \<not> reloaded (mount demo_storage) \<and>
   ls_token (localStorage (step (ItemsReply 0 (Reply 403 [])) (mount demo_storage))) = None \<and>
   ls_isLoggedIn (localStorage (step (ItemsReply 0 (Reply 403 [])) (mount demo_storage))) = None \<and>
   reloaded (step (ItemsReply 0 (Reply 403 [])) (mount demo_storage)) \<and>
   render_view (st (mount (localStorage (step (ItemsReply 0 (Reply 403 [])) (mount demo_storage)))))
     = LoginView"
proof -
  have a: "answers_with 403 (ItemsReply 0 (Reply 403 [])) (mount demo_storage)"
    by (simp add: mount_demo pending_at_def status_of_def)
  have b: "(403 :: nat) = 401 \<or> (403 :: nat) = 403"
    by simp
  have c: "\<not> reloaded (mount demo_storage)"
    by (simp add: mount_demo)
  from a b c unauthorized_forces_logout [OF a b c] show ?thesis
    by blast
qed

section \<open>Fetch orchestrator: the loading guard\<close>

text \<open>
  Claim C2 says that at most one list fetch is in flight and that a call of \<^verbatim>\<open>fetchItems\<close>
  made while \<^verbatim>\<open>loading\<close> is true does nothing. The code misses it on the page that has
  waited 500 ms after mounting, its first list request unanswered: the \<^verbatim>\<open>loading\<close> state is
  true and one list fetch is in flight. The debounce timer armed on mount now fires and calls
  the \<^verbatim>\<open>fetchItems\<close> of the first render, whose \<^verbatim>\<open>loading\<close> is still false: a second list
  request is sent, and two list fetches are in flight.
\<close>

theorem single_flight_counterexample:
  "loading (st demo_waited) \<and>
   list_fetches_in_flight demo_waited = 1 \<and>
   sent (acted demo_waited (step TimerFire demo_waited)) = [GetItems ''yangi'' 500 0 []] \<and>
   list_fetches_in_flight (step TimerFire demo_waited) = 2"
  by (simp add: demo_waited_eq mount_demo initial_demo run_defs)

section \<open>Mutation dispatcher: editing a field\<close>

text \<open>
  A price is edited on the loaded example page and the update request is answered with
  status 500: \<^verbatim>\<open>purchase_price\<close> is one of the three fields, yet neither the call nor the
  failed reply sends a statistics request.
\<close>

theorem updateItem_stats_counterexample:
  "''purchase_price'' \<in> set stats_fields \<and>
   pending_at demo_edited 1 = Some (PPut ''purchase_price'' ''yangi'') \<and>
   sent (acted demo_loaded demo_edited) = [PutItem (JNum 1) ''purchase_price'' (JNum 500000)] \<and>
   sent (acted demo_edited (step (PutReply 1 (Reply 500 ())) demo_edited)) = []"
  by (simp add: demo_edited_eq demo_loaded_eq stats_fields_def run_defs updateItem_settle_def)

text \<open>
  Claim C3, as the code has it. An edit \<^verbatim>\<open>updateItem(id, field, value)\<close> on a page \<open>w0\<close>
  replaces the list at once by the rendered list with every row of that id patched, sends
  the update request and nothing else, and leaves the request in flight. When an update
  request for \<open>field\<close> in flight on a page \<open>w\<close> is answered, a statistics request is sent if
  and only if the reply is a success and \<open>field\<close> is one of \<^verbatim>\<open>purchase_price\<close>,
  \<^verbatim>\<open>sale_price\<close>, \<^verbatim>\<open>sold_date\<close>; for \<^verbatim>\<open>fio\<close>, which is none of them, never.
\<close>

theorem updateItem_patch_then_stats:
  assumes "isLoggedIn (st w0)" and "\<not> reloaded w0"
    and "pending_at w i = Some (PPut field tab)" and "\<not> reloaded w"
  shows "items (st (step (Edit id' field v) w0))
           = map (\<lambda>it. if item_id it = id' then spread_with it field v else it)
               (items (st w0)) \<and>
         sent (acted w0 (step (Edit id' field v) w0)) = [PutItem id' field v] \<and>
         pending_at (step (Edit id' field v) w0) (length (inflight w0))
           = Some (PPut field (activeTab (st w0))) \<and>
         sent (acted w (step (PutReply i rep) w))
           = (if \<not> failed rep \<and> field \<in> set stats_fields then [GetStats tab] else [])"
proof -
  define out where "out = axios_settle rep"
  obtain acts where acts:
    "trace (response_interceptor out (settle_at i w)) = trace w @ acts" "sent acts = []"
    using response_interceptor_acted [of out "settle_at i w"] by auto
  have "sent (acted w (updateItem_settle field tab out
                        (response_interceptor out (settle_at i w))))
           = (if (case out of Rejected err \<Rightarrow> False | Fulfilled d \<Rightarrow> True)
                 \<and> field \<in> set stats_fields then [GetStats tab] else [])"
    using acts
    by (cases out) (simp_all add: updateItem_settle_def fetchStats_def setter_defs acted_def)
  then have "sent (acted w (step (PutReply i rep) w))
           = (if \<not> failed rep \<and> field \<in> set stats_fields then [GetStats tab] else [])"
    by (simp add: step_PutReply [OF assms(3,4)] failed_def out_def split: outcome.splits)
  then show ?thesis
    by (simp add: step_Edit [OF assms(1,2)] updateItem_def setter_defs acted_def pending_at_def
        Let_def)
qed

theorem updateItem_patch_then_stats_witness:
  "isLoggedIn (st demo_loaded) \<and> \<not> reloaded demo_loaded \<and>
   pending_at demo_edited 1 = Some (PPut ''purchase_price'' ''yangi'') \<and> \<not> reloaded demo_edited \<and>
   pending_at demo_renamed 1 = Some (PPut ''fio'' ''yangi'') \<and> \<not> reloaded demo_renamed \<and>
   items (st demo_edited)
     = [[(''id'', JNum 1), (''fio'', JStr ''Ali''), (''purchase_price'', JNum 500000)],
        [(''id'', JNum 2), (''fio'', JStr ''Vali''), (''purchase_price'', JNum 200)],
        [(''id'', JNum 3), (''fio'', JStr ''Gani''), (''purchase_price'', JNum 300)]] \<and>
   sent (acted demo_loaded demo_edited) = [PutItem (JNum 1) ''purchase_price'' (JNum 500000)] \<and>
   sent (acted demo_edited (step (PutReply 1 (Reply 200 ())) demo_edited)) = [GetStats ''yangi''] \<and>
   sent (acted demo_renamed (step (PutReply 1 (Reply 200 ())) demo_renamed)) = []"
proof -
  have a: "isLoggedIn (st demo_loaded)" and b: "\<not> reloaded demo_loaded"
    by (simp_all add: demo_loaded_eq)
  have c: "pending_at demo_edited 1 = Some (PPut ''purchase_price'' ''yangi'')"
    and d: "\<not> reloaded demo_edited"
    by (simp_all add: demo_edited_eq demo_loaded_eq pending_at_def)
  have e: "pending_at demo_renamed 1 = Some (PPut ''fio'' ''yangi'')"
    and f: "\<not> reloaded demo_renamed"
    by (simp_all add: demo_renamed_eq demo_loaded_eq pending_at_def)
  note price = updateItem_patch_then_stats
      [OF a b c d, of "JNum 1" "JNum 500000" "Reply 200 ()", folded demo_edited_def]
  note name = updateItem_patch_then_stats
      [OF a b e f, of "JNum 2" "JStr ''Ali''" "Reply 200 ()", folded demo_renamed_def]
  have g: "items (st demo_edited)
     = [[(''id'', JNum 1), (''fio'', JStr ''Ali''), (''purchase_price'', JNum 500000)],
        [(''id'', JNum 2), (''fio'', JStr ''Vali''), (''purchase_price'', JNum 200)],
        [(''id'', JNum 3), (''fio'', JStr ''Gani''), (''purchase_price'', JNum 300)]]"
    using price
    by (simp add: demo_loaded_eq demo_rows_def item_id_def get_prop_def spread_with_def)
  have h: "sent (acted demo_loaded demo_edited)
             = [PutItem (JNum 1) ''purchase_price'' (JNum 500000)]"
    using price by simp
  have i: "sent (acted demo_edited (step (PutReply 1 (Reply 200 ())) demo_edited))
             = [GetStats ''yangi'']"
    using price by (simp add: failed_def axios_settle_def stats_fields_def)
  have j: "sent (acted demo_renamed (step (PutReply 1 (Reply 200 ())) demo_renamed)) = []"
    using name by (simp add: failed_def axios_settle_def stats_fields_def)
  from a b c d e f g h i j show ?thesis by blast
qed

section \<open>Fetch orchestrator: the end of the data\<close>

lemma step_no_reset:
  assumes "\<not> is_reset e" and "\<not> hasMore (st w)" and "isLoggedIn (st w) \<or> reloaded w"
  shows "\<not> hasMore (st (step e w)) \<and> page (st (step e w)) = page (st w) \<and>
         (isLoggedIn (st (step e w)) \<or> reloaded (step e w)) \<and>
         list_requests (step e w) = list_requests w"
proof (cases "reloaded w")
  case True
  then show ?thesis using assms by (simp add: step_def)
next
  case False
  then have li: "isLoggedIn (st w)" using assms(3) by simp
  let ?h = "handler e w"
  have ne: "e \<noteq> TimerFire" and nt: "\<forall>tab. e \<noteq> ClickTab tab"
    using assms(1) by (auto simp: is_reset_def)
  have tab: "activeTab (st ?h) = activeTab (st w)"
    using nt by (cases e) (simp_all add: handler_activeTab del: handler.simps)
  have pg: "page (st ?h) = page (st w)"
    using ne assms(2) by (simp add: handler_page del: handler.simps)
  have hm: "\<not> hasMore (st ?h)"
    using ne assms(2) by (simp add: handler_hasMore del: handler.simps)
  have lg: "isLoggedIn (st ?h) \<or> reloaded ?h"
    using li by (rule handler_isLoggedIn)
  have lr: "list_requests ?h = list_requests w"
    using ne by (rule handler_list_requests)
  have q: "isLoggedIn (st ?h) = isLoggedIn (st w) \<or> \<not> isLoggedIn (st ?h)"
    using li by auto
  note re = run_effects_quiet [OF tab q pg, of ?h]
  have s: "step e w = run_effects (st w) (st ?h) ?h"
    using False by (simp add: step_def rerender_one_pass)
  show ?thesis
    unfolding s using re hm pg lg lr by simp
qed

lemma run_no_reset:
  assumes "\<forall>e\<in>set evs. \<not> is_reset e" and "\<not> hasMore (st w)"
    and "isLoggedIn (st w) \<or> reloaded w"
  shows "\<not> hasMore (st (run evs w)) \<and> page (st (run evs w)) = page (st w) \<and>
         list_requests (run evs w) = list_requests w"
  using assms
proof (induction evs arbitrary: w)
  case Nil
  then show ?case by simp
next
  case (Cons e es)
  have e: "\<not> is_reset e" using Cons.prems(1) by simp
  note s = step_no_reset [OF e Cons.prems(2,3)]
  have "\<not> hasMore (st (run es (step e w))) \<and>
        page (st (run es (step e w))) = page (st (step e w)) \<and>
        list_requests (run es (step e w)) = list_requests (step e w)"
    using Cons.prems(1) s by (intro Cons.IH) simp_all
  with s show ?case by simp
qed

lemma run_no_change:
  assumes "\<forall>e\<in>set evs. \<not> is_change e" and "timer w = None" and "\<not> hasMore (st w)"
    and "isLoggedIn (st w) \<or> reloaded w"
  shows "\<not> hasMore (st (run evs w)) \<and> page (st (run evs w)) = page (st w) \<and>
         list_requests (run evs w) = list_requests w"
  using assms
proof (induction evs arbitrary: w)
  case Nil
  then show ?case by simp
next
  case (Cons e es)
  have nc: "\<not> is_change e" using Cons.prems(1) by simp
  then have nk: "\<not> is_keystroke e"
    by (cases e) (simp_all add: is_change_def is_keystroke_def)
  have t: "timer (step e w) = None"
    using nk Cons.prems(2) by (rule step_keeps_no_timer)
  have s: "\<not> hasMore (st (step e w)) \<and> page (st (step e w)) = page (st w) \<and>
         (isLoggedIn (st (step e w)) \<or> reloaded (step e w)) \<and>
         list_requests (step e w) = list_requests w"
  proof (cases "e = TimerFire")
    case True
    then show ?thesis
      using no_timer_to_fire [OF Cons.prems(2)] Cons.prems(3,4) by simp
  next
    case False
    with nc have "\<not> is_reset e"
      by (cases e) (simp_all add: is_change_def is_reset_def)
    then show ?thesis using Cons.prems(3,4) by (rule step_no_reset)
  qed
  have "\<not> hasMore (st (run es (step e w))) \<and>
        page (st (run es (step e w))) = page (st (step e w)) \<and>
        list_requests (run es (step e w)) = list_requests (step e w)"
    using Cons.prems(1) t s by (intro Cons.IH) simp_all
  with s show ?case by simp
qed

lemma demo_reset_eq:
  "demo_reset =
     demo_loaded\<lparr>st := (st demo_loaded)\<lparr>items := [], hasMore := True\<rparr>, now := 500,
       timer := None,
       trace := trace demo_loaded
                  @ [Http (Some ''Bearer t0k3n'') (GetItems ''yangi'' 500 0 []), ConsoleError]\<rparr>"
proof -
  let ?w1 = "step TimerFire (step (Tick 500) demo_loaded)"
  have a: "demo_reset = step (ItemsReply 1 (Reply 500 [])) ?w1"
    by (simp add: demo_reset_def)
  have b: "?w1 =
     demo_loaded\<lparr>st := (st demo_loaded)\<lparr>items := [], hasMore := True, loading := True\<rparr>,
       now := 500, timer := None, inflight := [PStats, PItems True],
       trace := trace demo_loaded
                  @ [Http (Some ''Bearer t0k3n'') (GetItems ''yangi'' 500 0 [])]\<rparr>"
    by (simp add: demo_loaded_eq initial_demo eval_defs)
  show ?thesis unfolding a b by (simp add: demo_loaded_eq eval_defs)
qed

text \<open>
  The example page has loaded three rows, fewer than 500, so that \<^verbatim>\<open>hasMore\<close> is false. No
  tab is clicked and no key is typed. After 500 ms the debounce timer armed when the page
  loaded fires, sets \<^verbatim>\<open>hasMore\<close> to true and asks for page 0 again; that request is answered
  with status 500. The scroll sentinel then increments \<^verbatim>\<open>page\<close>, and page 1 is requested.
\<close>

theorem short_page_counterexample:
  "\<not> hasMore (st demo_loaded) \<and> page (st demo_loaded) = 0 \<and>
   \<not> is_change (Tick 500) \<and> \<not> is_change TimerFire \<and>
   \<not> is_change (ItemsReply 1 (Reply 500 [])) \<and> \<not> is_change (Observe True) \<and>
   demo_reset = run [Tick 500, TimerFire, ItemsReply 1 (Reply 500 [])] demo_loaded \<and>
   activeTab (st demo_reset) = activeTab (st demo_loaded) \<and>
   search (st demo_reset) = search (st demo_loaded) \<and>
   hasMore (st demo_reset) \<and>
   page (st (step (Observe True) demo_reset)) = 1 \<and>
   sent (acted demo_reset (step (Observe True) demo_reset)) = [GetItems ''yangi'' 500 500 []]"
proof -
  have a: "\<not> hasMore (st demo_loaded) \<and> page (st demo_loaded) = 0"
    by (simp add: demo_loaded_eq)
  have b: "\<not> is_change (Tick 500) \<and> \<not> is_change TimerFire \<and>
   \<not> is_change (ItemsReply 1 (Reply 500 [])) \<and> \<not> is_change (Observe True)"
    by (simp add: is_change_def)
  have c: "demo_reset = run [Tick 500, TimerFire, ItemsReply 1 (Reply 500 [])] demo_loaded"
    by (simp add: demo_reset_def)
  have d: "activeTab (st demo_reset) = activeTab (st demo_loaded) \<and>
   search (st demo_reset) = search (st demo_loaded) \<and>
   hasMore (st demo_reset) \<and>
   page (st (step (Observe True) demo_reset)) = 1 \<and>
   sent (acted demo_reset (step (Observe True) demo_reset)) = [GetItems ''yangi'' 500 500 []]"
    by (simp add: demo_reset_eq demo_loaded_eq run_defs)
  from a b c d show ?thesis by blast
qed

text \<open>
  Claim C4, as the code has it. When a list fetch in flight on a logged-in page is answered
  with a success and fewer than 500 rows, \<^verbatim>\<open>hasMore\<close> is false afterwards. It then stays
  false, \<^verbatim>\<open>page\<close> keeps its value and no list request is sent, through any events that
  follow, as long as none of them is a click on a tab or the firing of the search debounce
  timer (the two places that set \<^verbatim>\<open>hasMore\<close> back to true); and, when no debounce timer is
  pending at the reply, as long as none of them is a click on a tab or a keystroke in the
  search box.
\<close>

theorem short_page_ends_paging:
  assumes "pending_at w i = Some (PItems reset)" and "\<not> reloaded w" and "isLoggedIn (st w)"
    and "200 \<le> status" and "status < 300" and "length rows < 500"
    and "(\<forall>e\<in>set evs. \<not> is_reset e) \<or> (timer w = None \<and> (\<forall>e\<in>set evs. \<not> is_change e))"
  shows "\<not> hasMore (st (step (ItemsReply i (Reply status rows)) w)) \<and>
         \<not> hasMore (st (run evs (step (ItemsReply i (Reply status rows)) w))) \<and>
         page (st (run evs (step (ItemsReply i (Reply status rows)) w))) = page (st w) \<and>
         list_requests (run evs (step (ItemsReply i (Reply status rows)) w)) = list_requests w"
proof -
  let ?w1 = "step (ItemsReply i (Reply status rows)) w"
  have w1: "?w1 = fetchItems_settle reset (Fulfilled rows)
                    (response_interceptor (Fulfilled rows) (settle_at i w))"
    using assms(4,5) by (simp add: step_ItemsReply [OF assms(1,2)] axios_settle_def)
  have h: "\<not> hasMore (st ?w1)"
    using assms(6) by (simp add: w1 fetchItems_settle_def setter_defs Let_def)
  have l: "isLoggedIn (st ?w1)" "page (st ?w1) = page (st w)" "timer ?w1 = timer w"
    using assms(3) by (simp_all add: w1)
  have r: "list_requests ?w1 = list_requests w"
    by (simp add: w1 list_requests_def)
  from assms(7) have "\<not> hasMore (st (run evs ?w1)) \<and> page (st (run evs ?w1)) = page (st ?w1) \<and>
         list_requests (run evs ?w1) = list_requests ?w1"
  proof
    assume "\<forall>e\<in>set evs. \<not> is_reset e"
    then show ?thesis using h l(1) by (intro run_no_reset) simp_all
  next
    assume "timer w = None \<and> (\<forall>e\<in>set evs. \<not> is_change e)"
    then show ?thesis using h l by (intro run_no_change) simp_all
  qed
  with h l r show ?thesis by simp
qed

theorem short_page_ends_paging_witness:
  "pending_at (mount demo_storage) 0 = Some (PItems True) \<and> \<not> reloaded (mount demo_storage) \<and>
   isLoggedIn (st (mount demo_storage)) \<and> (200 :: nat) \<le> 200 \<and> (200 :: nat) < 300 \<and>
   length demo_rows < 500 \<and>
   \<not> is_reset (Observe True) \<and> \<not> is_reset (TypeSearch ''a'') \<and> \<not> is_reset (Tick 100) \<and>
   \<not> is_reset (StatsReply 0 (Reply 200 [])) \<and>
   \<not> hasMore (st demo_loaded) \<and>
   \<not> hasMore (st (run [Observe True, TypeSearch ''a'', Tick 100, StatsReply 0 (Reply 200 [])]
                     demo_loaded)) \<and>
   page (st (run [Observe True, TypeSearch ''a'', Tick 100, StatsReply 0 (Reply 200 [])]
                     demo_loaded)) = 0 \<and>
   list_requests (run [Observe True, TypeSearch ''a'', Tick 100, StatsReply 0 (Reply 200 [])]
                     demo_loaded) = [GetItems ''yangi'' 500 0 []] \<and>
   pending_at demo_refetching 0 = Some (PItems True) \<and> \<not> reloaded demo_refetching \<and>
   isLoggedIn (st demo_refetching) \<and> timer demo_refetching = None \<and>
   \<not> is_change TimerFire \<and> \<not> is_change (Observe True) \<and>
   \<not> hasMore (st (run [TimerFire, Observe True]
                     (step (ItemsReply 0 (Reply 200 demo_rows)) demo_refetching))) \<and>
   page (st (run [TimerFire, Observe True]
                     (step (ItemsReply 0 (Reply 200 demo_rows)) demo_refetching))) = 0"
proof -
  have a: "pending_at (mount demo_storage) 0 = Some (PItems True)"
    and b: "\<not> reloaded (mount demo_storage)" and c: "isLoggedIn (st (mount demo_storage))"
    by (simp_all add: mount_demo pending_at_def)
  have d: "(200 :: nat) \<le> 200" and e: "(200 :: nat) < 300" and f: "length demo_rows < 500"
    by (simp_all add: demo_rows_def)
  have g: "\<not> is_reset (Observe True)" "\<not> is_reset (TypeSearch ''a'')" "\<not> is_reset (Tick 100)"
    "\<not> is_reset (StatsReply 0 (Reply 200 []))"
    by (simp_all add: is_reset_def)
  then have h: "(\<forall>e\<in>set [Observe True, TypeSearch ''a'', Tick 100, StatsReply 0 (Reply 200 [])].
      \<not> is_reset e) \<or> (timer (mount demo_storage) = None \<and>
      (\<forall>e\<in>set [Observe True, TypeSearch ''a'', Tick 100, StatsReply 0 (Reply 200 [])].
      \<not> is_change e))"
    by simp
  note t = short_page_ends_paging [OF a b c d e f h, folded demo_loaded_def]
  have i: "page (st (run [Observe True, TypeSearch ''a'', Tick 100, StatsReply 0 (Reply 200 [])]
                     demo_loaded)) = 0"
    using t by (simp add: mount_demo)
  have j: "list_requests (run [Observe True, TypeSearch ''a'', Tick 100,
                               StatsReply 0 (Reply 200 [])] demo_loaded)
             = [GetItems ''yangi'' 500 0 []]"
    using t by (simp add: mount_demo list_requests_def is_list_request_def)
  have k: "pending_at demo_refetching 0 = Some (PItems True)"
    and l: "\<not> reloaded demo_refetching" and m: "isLoggedIn (st demo_refetching)"
    and n: "timer demo_refetching = None"
    by (simp_all add: demo_refetching_eq mount_demo pending_at_def)
  have o: "\<not> is_change TimerFire" "\<not> is_change (Observe True)"
    by (simp_all add: is_change_def)
  then have p: "(\<forall>e\<in>set [TimerFire, Observe True]. \<not> is_reset e) \<or>
      (timer demo_refetching = None \<and> (\<forall>e\<in>set [TimerFire, Observe True]. \<not> is_change e))"
    using n by simp
  note u = short_page_ends_paging [OF k l m d e f p]
  have q: "page (st (run [TimerFire, Observe True]
                     (step (ItemsReply 0 (Reply 200 demo_rows)) demo_refetching))) = 0"
    using u by (simp add: demo_refetching_eq mount_demo)
  from a b c d e f g t i j k l m n o u q show ?thesis by blast
qed

section \<open>Fetch orchestrator: changing the tab\<close>

text \<open>
  The freshly mounted example page, its first list request unanswered, so that \<^verbatim>\<open>loading\<close> is
  true: a click on the other tab changes the tab and sends the statistics request for it, but
  no list request.
\<close>

theorem tab_change_counterexample:
  "loading (st (mount demo_storage)) \<and>
   activeTab (st (step (ClickTab ''koreyskiy'') (mount demo_storage))) = ''koreyskiy'' \<and>
   sent (acted (mount demo_storage) (step (ClickTab ''koreyskiy'') (mount demo_storage)))
     = [GetStats ''koreyskiy'']"
  by (simp add: mount_demo run_defs)

text \<open>
  Claim C5, as the code has it. A click that changes the tab of a logged-in page sets the tab,
  sets \<^verbatim>\<open>page\<close> to 0, empties the list and sets \<^verbatim>\<open>hasMore\<close> to true; it always sends a
  statistics request for the new tab, and before it a list request for page 0 of the new tab
  (with the current search text) exactly when \<^verbatim>\<open>loading\<close> is false at the click.
\<close>

theorem tab_change_resets:
  assumes "isLoggedIn (st w)" and "\<not> reloaded w" and "tab \<noteq> activeTab (st w)"
  shows "activeTab (st (step (ClickTab tab) w)) = tab \<and>
         page (st (step (ClickTab tab) w)) = 0 \<and>
         items (st (step (ClickTab tab) w)) = [] \<and>
         hasMore (st (step (ClickTab tab) w)) \<and>
         sent (acted w (step (ClickTab tab) w))
           = (if loading (st w) then [] else [GetItems tab 500 0 (search (st w))])
               @ [GetStats tab]"
  using assms
  by (simp add: step_def rerender_one_pass run_effects_def fetch_defs setter_defs acted_def
      Let_def)

theorem tab_change_resets_witness:
  "isLoggedIn (st demo_loaded) \<and> \<not> reloaded demo_loaded \<and>
   ''koreyskiy'' \<noteq> activeTab (st demo_loaded) \<and>
   activeTab (st (step (ClickTab ''koreyskiy'') demo_loaded)) = ''koreyskiy'' \<and>
   page (st (step (ClickTab ''koreyskiy'') demo_loaded)) = 0 \<and>
   items (st (step (ClickTab ''koreyskiy'') demo_loaded)) = [] \<and>
   hasMore (st (step (ClickTab ''koreyskiy'') demo_loaded)) \<and>
   sent (acted demo_loaded (step (ClickTab ''koreyskiy'') demo_loaded))
     = [GetItems ''koreyskiy'' 500 0 [], GetStats ''koreyskiy'']"
  using tab_change_resets [of demo_loaded "''koreyskiy''"]
  by (simp add: demo_loaded_eq)

section \<open>Mutation dispatcher: a failed request among the new rows\<close>

text \<open>
  Claim C6. Let the create requests of one \<^verbatim>\<open>addItems\<close> call be in flight and let
  \<^verbatim>\<open>Promise.all\<close> settle with at least one of them failed (an error status or no reply), the
  others answered with success or not yet answered. Then the list of rows is what it was
  before: no created row is appended, not even those of the requests that succeeded; the
  failure alert is shown; and no request is sent, in particular none for the statistics.
\<close>

theorem addItems_partial_failure:
  assumes "pending_at w i = Some (PAdd (length reps) tab)" and "\<not> reloaded w"
    and "Some rep \<in> set reps" and "failed rep"
  shows "items (st (step (AddReply i reps) w)) = items (st w) \<and>
         AlertAddFailed \<in> set (acted w (step (AddReply i reps) w)) \<and>
         sent (acted w (step (AddReply i reps) w)) = []"
proof -
  let ?outs = "map (map_option axios_settle) reps"
  let ?w1 = "intercept_all ?outs (settle_at i w)"
  obtain err where "axios_settle rep = Rejected err"
    using assms(4) by (auto simp: failed_def split: outcome.splits)
  then have "Some (Rejected err) \<in> set ?outs"
    using assms(3) by force
  then have rej: "promise_all ?outs = AnyRejected"
    by (rule promise_all_rejected)
  have h: "handler (AddReply i reps) w
             = setLoading False (emit AlertAddFailed (emit ConsoleError ?w1))"
    using assms(1) rej by (simp add: Let_def addItems_settle_def)
  have s: "step (AddReply i reps) w = handler (AddReply i reps) w"
    using assms(2) by (intro step_same) (simp_all add: h setter_defs del: handler.simps)
  obtain acts where acts: "trace ?w1 = trace w @ acts" "sent acts = []"
    using intercept_all_acted [of ?outs "settle_at i w"] by auto
  have t: "trace (step (AddReply i reps) w) = trace w @ acts @ [ConsoleError, AlertAddFailed]"
    by (simp add: s h setter_defs acts del: handler.simps)
  show ?thesis
    by (simp add: acted_def t acts) (simp add: s h setter_defs del: handler.simps)
qed

theorem addItems_partial_failure_witness:
  "pending_at demo_adding 1
     = Some (PAdd (length [Some (Reply 201 [(''id'', JNum 4)]), Some NoReply]) ''yangi'') \<and>
   \<not> reloaded demo_adding \<and>
   Some NoReply \<in> set [Some (Reply 201 [(''id'', JNum 4)]), Some NoReply] \<and>
   failed (NoReply :: item reply) \<and>
   items (st (step (AddReply 1 [Some (Reply 201 [(''id'', JNum 4)]), Some NoReply]) demo_adding))
     = demo_rows \<and>
   AlertAddFailed \<in> set (acted demo_adding
       (step (AddReply 1 [Some (Reply 201 [(''id'', JNum 4)]), Some NoReply]) demo_adding)) \<and>
   sent (acted demo_adding
       (step (AddReply 1 [Some (Reply 201 [(''id'', JNum 4)]), Some NoReply]) demo_adding)) = []"
  using addItems_partial_failure
    [of demo_adding 1 "[Some (Reply 201 [(''id'', JNum 4)]), Some NoReply]" "''yangi''" NoReply]
  by (simp add: demo_adding_eq demo_loaded_eq pending_at_def failed_def axios_settle_def)

section \<open>Fetch orchestrator: the search debounce\<close>

text \<open>
  A key is typed into the search box of the freshly mounted example page while its first list
  request is unanswered, and 500 ms pass. The timer is due and fires: it is consumed and the
  list is emptied, but no request is sent.
\<close>

theorem search_debounce_counterexample:
  "now demo_typed = 500 \<and> map_option fst (timer demo_typed) = Some 500 \<and>
   timer (step TimerFire demo_typed) = None \<and>
   items (st (step TimerFire demo_typed)) = [] \<and>
   sent (acted demo_typed (step TimerFire demo_typed)) = []"
  by (simp add: demo_typed_eq run_defs)

text \<open>
  Claim C7, as the code has it. A keystroke that changes the search text of a logged-in page
  sends no request; and after it, through any events that are not further keystrokes and
  during which less than 500 ms pass, the debounce timer does nothing when asked to fire.
  When a timer that is due fires, the list is emptied, \<^verbatim>\<open>page\<close> is 0 and \<^verbatim>\<open>hasMore\<close> is
  true, and no request other than a list request is sent, so none for the statistics. When
  the tab, the search text and \<^verbatim>\<open>loading\<close> are then as they were when the timer was armed,
  page 0 of the list is requested for that tab and search text, unless \<^verbatim>\<open>loading\<close> is true:
  then a list fetch is pending, and the guard of \<^verbatim>\<open>fetchItems\<close> drops the request.
\<close>

theorem search_debounce:
  assumes "isLoggedIn (st w)" and "\<not> reloaded w" and "v \<noteq> search (st w)"
    and "\<forall>e\<in>set evs. \<not> is_keystroke e" and "elapsed evs < 500"
    and "\<not> reloaded w'" and "timer w' = Some (due, r)" and "due \<le> now w'"
  shows "sent (acted w (step (TypeSearch v) w)) = [] \<and>
         step TimerFire (run evs (step (TypeSearch v) w)) = run evs (step (TypeSearch v) w) \<and>
         items (st (step TimerFire w')) = [] \<and>
         page (st (step TimerFire w')) = 0 \<and>
         hasMore (st (step TimerFire w')) \<and>
         list_all is_list_request (sent (acted w' (step TimerFire w'))) \<and>
         (activeTab r = activeTab (st w') \<and> search r = search (st w') \<and>
          loading r = loading (st w') \<longrightarrow>
            sent (acted w' (step TimerFire w'))
              = (if loading (st w') then []
                 else [GetItems (activeTab (st w')) 500 0 (search (st w'))]))"
proof -
  let ?w1 = "step (TypeSearch v) w"
  have w1: "timer ?w1 = Some (now w + 500, (st w)\<lparr>search := v\<rparr>)" "now ?w1 = now w"
    by (simp_all add: step_TypeSearch [OF assms(1-3)])
  have "timer (run evs ?w1) = Some (now w + 500, (st w)\<lparr>search := v\<rparr>) \<and>
        now (run evs ?w1) < now w + 500"
    using assms(4,5) by (intro run_keeps_timer) (simp_all add: w1)
  then have a: "step TimerFire (run evs ?w1) = run evs ?w1"
    by (simp add: timer_not_due)
  have b: "sent (acted w ?w1) = []"
    by (simp add: step_TypeSearch [OF assms(1-3)] acted_def)
  have c: "items (st (step TimerFire w')) = [] \<and>
         page (st (step TimerFire w')) = 0 \<and>
         hasMore (st (step TimerFire w')) \<and>
         sent (acted w' (step TimerFire w'))
           = (if loading r then [] else [GetItems (activeTab r) 500 0 (search r)])"
    using assms(6-8)
    by (simp add: step_def rerender_one_pass run_effects_def fetch_defs setter_defs acted_def
        Let_def)
  then have d: "list_all is_list_request (sent (acted w' (step TimerFire w')))"
    by (simp add: is_list_request_def)
  from a b c d show ?thesis by simp
qed

theorem search_debounce_witness:
  "isLoggedIn (st demo_loaded) \<and> \<not> reloaded demo_loaded \<and> ''a'' \<noteq> search (st demo_loaded) \<and>
   \<not> is_keystroke (Tick 499) \<and> \<not> is_keystroke (Observe True) \<and>
   elapsed [Tick 499, Observe True] < 500 \<and>
   \<not> reloaded demo_searching \<and>
   timer demo_searching = Some (500, (st demo_loaded)\<lparr>search := ''a''\<rparr>) \<and>
   500 \<le> now demo_searching \<and>
   activeTab (st demo_searching) = ''yangi'' \<and> search (st demo_searching) = ''a'' \<and>
   \<not> loading (st demo_searching) \<and> st demo_searching = (st demo_loaded)\<lparr>search := ''a''\<rparr> \<and>
   sent (acted demo_loaded (step (TypeSearch ''a'') demo_loaded)) = [] \<and>
   step TimerFire (run [Tick 499, Observe True] (step (TypeSearch ''a'') demo_loaded))
     = run [Tick 499, Observe True] (step (TypeSearch ''a'') demo_loaded) \<and>
   items (st (step TimerFire demo_searching)) = [] \<and>
   page (st (step TimerFire demo_searching)) = 0 \<and>
   hasMore (st (step TimerFire demo_searching)) \<and>
   list_all is_list_request (sent (acted demo_searching (step TimerFire demo_searching))) \<and>
   sent (acted demo_searching (step TimerFire demo_searching)) = [GetItems ''yangi'' 500 0 ''a'']"
proof -
  have a: "isLoggedIn (st demo_loaded)" and b: "\<not> reloaded demo_loaded"
    and c: "''a'' \<noteq> search (st demo_loaded)"
    by (simp_all add: demo_loaded_eq)
  have d: "\<not> is_keystroke (Tick 499)" "\<not> is_keystroke (Observe True)"
    by (simp_all add: is_keystroke_def)
  then have d': "\<forall>e\<in>set [Tick 499, Observe True]. \<not> is_keystroke e"
    by simp
  have e: "elapsed [Tick 499, Observe True] < 500"
    by simp
  have f: "\<not> reloaded demo_searching"
    and g: "timer demo_searching = Some (500, (st demo_loaded)\<lparr>search := ''a''\<rparr>)"
    and h: "500 \<le> now demo_searching"
    by (simp_all add: demo_searching_eq demo_loaded_eq)
  have k: "activeTab (st demo_searching) = ''yangi''" "search (st demo_searching) = ''a''"
    "\<not> loading (st demo_searching)" "st demo_searching = (st demo_loaded)\<lparr>search := ''a''\<rparr>"
    by (simp_all add: demo_searching_eq demo_loaded_eq)
  note t = search_debounce [OF a b c d' e f g h]
  have i: "sent (acted demo_searching (step TimerFire demo_searching))
             = [GetItems ''yangi'' 500 0 ''a'']"
    using t k by simp
  from a b c d e f g h k t i show ?thesis by blast
qed

section \<open>Mutation dispatcher: the count of rows to add\<close>

text \<open>
  Claim C8. If the text typed into the prompt parses to \<^verbatim>\<open>NaN\<close> or to a number that is not
  positive, \<^verbatim>\<open>addItems\<close> shows the prompt and the validation alert and does nothing else: no
  request is sent and no state changes. If it parses to a count above 100, the confirmation
  dialog comes right after the prompt, and the create requests (as many as the count) come
  after it, and only if the user confirms.
\<close>

theorem addItems_validation:
  "(invalid_count (parseInt s) \<longrightarrow>
      addItems r (Some s) ok w = emit AlertInvalidCount (emit PromptCount w)) \<and>
   (parseInt s = Some n \<and> 100 < n \<longrightarrow>
      trace (addItems r (Some s) ok w)
        = trace w @ [PromptCount, ConfirmSlowAdd n]
            @ (if ok then replicate (nat n) (Http (request_interceptor (localStorage w))
                                               (PostItem (activeTab r)))
               else []))"
  by (auto simp: addItems_def invalid_count_def Let_def post_items_trace setter_defs
      split: option.splits)

theorem addItems_validation_witness:
  "invalid_count (parseInt ''-3'') \<and>
   addItems (st demo_loaded) (Some ''-3'') True demo_loaded
     = emit AlertInvalidCount (emit PromptCount demo_loaded) \<and>
   invalid_count (parseInt ''0'') \<and>
   addItems (st demo_loaded) (Some ''0'') True demo_loaded
     = emit AlertInvalidCount (emit PromptCount demo_loaded) \<and>
   invalid_count (parseInt ''abc'') \<and>
   addItems (st demo_loaded) (Some ''abc'') True demo_loaded
     = emit AlertInvalidCount (emit PromptCount demo_loaded) \<and>
   parseInt ''101'' = Some 101 \<and> (100 :: int) < 101 \<and>
   trace (addItems (st demo_loaded) (Some ''101'') False demo_loaded)
     = trace demo_loaded @ [PromptCount, ConfirmSlowAdd 101]"
  using addItems_validation [of "''-3''" "st demo_loaded" True demo_loaded 0]
    addItems_validation [of "''0''" "st demo_loaded" True demo_loaded 0]
    addItems_validation [of "''abc''" "st demo_loaded" True demo_loaded 0]
    addItems_validation [of "''101''" "st demo_loaded" False demo_loaded 101]
  by (simp add: parseInt_examples invalid_count_def)

section \<open>Mutation dispatcher: deleting a row\<close>

text \<open>
  Claim C9. Confirming the deletion of \<open>id'\<close> on a page \<open>w0\<close> leaves the list as it is and puts
  the request in flight; when a delete request for \<open>id'\<close> in flight on a page \<open>w\<close> is answered
  with a success status, the list becomes the list of \<open>w\<close> without the rows whose id is \<open>id'\<close>,
  the other rows unchanged and in the same order.
\<close>

theorem deleteItem_removes_matching:
  assumes "isLoggedIn (st w0)" and "\<not> reloaded w0"
    and "pending_at w i = Some (PDelete id' tab)" and "\<not> reloaded w"
    and "200 \<le> status" and "status < 300"
  shows "pending_at (step (ClickDelete id' True) w0) (length (inflight w0))
           = Some (PDelete id' (activeTab (st w0))) \<and>
         items (st (step (ClickDelete id' True) w0)) = items (st w0) \<and>
         items (st (step (DeleteReply i (Reply status ())) w))
           = filter (\<lambda>it. item_id it \<noteq> id') (items (st w))"
  using assms(5,6)
  by (simp add: step_DeleteReply [OF assms(3,4)] step_ClickDelete [OF assms(1,2)]
      deleteItem_def deleteItem_settle_def fetchStats_def setter_defs axios_settle_def
      pending_at_def Let_def)

theorem deleteItem_removes_matching_witness:
  "isLoggedIn (st demo_loaded) \<and> \<not> reloaded demo_loaded \<and>
   pending_at (step (ClickDelete (JNum 2) True) demo_loaded) 1
     = Some (PDelete (JNum 2) ''yangi'') \<and>
   \<not> reloaded (step (ClickDelete (JNum 2) True) demo_loaded) \<and>
   (200 :: nat) \<le> 204 \<and> (204 :: nat) < 300 \<and>
   items (st (step (DeleteReply 1 (Reply 204 ())) (step (ClickDelete (JNum 2) True) demo_loaded)))
     = [[(''id'', JNum 1), (''fio'', JStr ''Ali''), (''purchase_price'', JNum 100)],
        [(''id'', JNum 3), (''fio'', JStr ''Gani''), (''purchase_price'', JNum 300)]]"
  using deleteItem_removes_matching
    [of demo_loaded "step (ClickDelete (JNum 2) True) demo_loaded" 1 "JNum 2" "''yangi''" 204]
  by (simp add: demo_loaded_eq step_ClickDelete deleteItem_def setter_defs pending_at_def
      demo_rows_def item_id_def get_prop_def)

section \<open>Fetch orchestrator: a refetch after a failed list fetch\<close>

lemma list_reply_releases_loading:
  assumes "pending_at w i = Some (PItems reset)" and "\<not> reloaded w"
  shows "\<not> loading (st (step (ItemsReply i rep) w))"
  by (simp add: step_ItemsReply [OF assms])



end
